theory Spec2Isabelle
  imports Main
begin

section \<open>Python strings\<close>

text \<open>
  A Python \<open>str\<close> is modelled as a \<^typ>\<open>string\<close> holding the UTF-8 bytes of the text.
  Every literal of \<open>auto_init.py\<close> is ASCII except the check mark, which is written out as
  its three bytes.
\<close>

text \<open>\<open>s.startswith(p)\<close>\<close>

definition startswith :: "string \<Rightarrow> string \<Rightarrow> bool" where
  "startswith s p = (take (length p) s = p)"

text \<open>
  The white space of \<open>str.strip\<close> and \<open>str.isspace\<close>: the code points 9 to 13, 28 to 32,
  U+0085, U+00A0, U+1680, U+2000 to U+200A, U+2028, U+2029, U+202F, U+205F and U+3000, each
  in UTF-8.
\<close>

definition unicode_spaces :: "string list" where
  "unicode_spaces =
     [[CHR 0x09], [CHR 0x0A], [CHR 0x0B], [CHR 0x0C], [CHR 0x0D], [CHR 0x1C], [CHR 0x1D],
      [CHR 0x1E], [CHR 0x1F], [CHR 0x20], [CHR 0xC2, CHR 0x85], [CHR 0xC2, CHR 0xA0],
      [CHR 0xE1, CHR 0x9A, CHR 0x80], [CHR 0xE2, CHR 0x80, CHR 0x80],
      [CHR 0xE2, CHR 0x80, CHR 0x81], [CHR 0xE2, CHR 0x80, CHR 0x82],
      [CHR 0xE2, CHR 0x80, CHR 0x83], [CHR 0xE2, CHR 0x80, CHR 0x84],
      [CHR 0xE2, CHR 0x80, CHR 0x85], [CHR 0xE2, CHR 0x80, CHR 0x86],
      [CHR 0xE2, CHR 0x80, CHR 0x87], [CHR 0xE2, CHR 0x80, CHR 0x88],
      [CHR 0xE2, CHR 0x80, CHR 0x89], [CHR 0xE2, CHR 0x80, CHR 0x8A],
      [CHR 0xE2, CHR 0x80, CHR 0xA8], [CHR 0xE2, CHR 0x80, CHR 0xA9],
      [CHR 0xE2, CHR 0x80, CHR 0xAF], [CHR 0xE2, CHR 0x81, CHR 0x9F],
      [CHR 0xE3, CHR 0x80, CHR 0x80]]"

text \<open>
  Removing, as long as there is one, a sequence of \<open>seqs\<close> from the front of a text. A
  text in UTF-8 starts with the bytes of a code point exactly when that code point is its
  first, and ends with them exactly when it is its last.
\<close>

function drop_leading :: "string list \<Rightarrow> string \<Rightarrow> string" where
  "drop_leading seqs s =
     (case find (\<lambda>w. w \<noteq> [] \<and> startswith s w) seqs of
        None \<Rightarrow> s
      | Some w \<Rightarrow> drop_leading seqs (drop (length w) s))"
  by pat_completeness auto
termination
proof (relation "measure (\<lambda>(seqs, s). length s)")
  show "wf (measure (\<lambda>(seqs, s). length s))" by simp
next
  fix seqs :: "string list" and s w :: string
  assume "find (\<lambda>w. w \<noteq> [] \<and> startswith s w) seqs = Some w"
  then have "w \<noteq> []" and "take (length w) s = w"
    by (auto simp: find_Some_iff startswith_def)
  from \<open>take (length w) s = w\<close> have "length (take (length w) s) = length w"
    by simp
  then have "length w \<le> length s" by simp
  with \<open>w \<noteq> []\<close>
  show "((seqs, drop (length w) s), (seqs, s)) \<in> measure (\<lambda>(seqs, s). length s)"
    by (cases w; cases s; simp)
qed

declare drop_leading.simps [simp del]

definition lstrip :: "string \<Rightarrow> string" where
  "lstrip s = drop_leading unicode_spaces s"

definition rstrip :: "string \<Rightarrow> string" where
  "rstrip s = rev (drop_leading (map rev unicode_spaces) (rev s))"

text \<open>\<open>s.strip()\<close>\<close>

definition strip :: "string \<Rightarrow> string" where
  "strip s = lstrip (rstrip s)"

text \<open>\<open>sub in s\<close> on strings: \<open>sub\<close> occurs in \<open>s\<close> as a contiguous run.\<close>

fun contains :: "string \<Rightarrow> string \<Rightarrow> bool" where
  "contains sub [] = (sub = [])"
| "contains sub (c # cs) = (startswith (c # cs) sub \<or> contains sub cs)"

text \<open>
  \<open>s.split(sep, 1)\<close> for a one-character separator: one part when \<open>sep\<close> does not occur,
  otherwise the text before the first \<open>sep\<close> and everything after it.
\<close>

definition split1 :: "char \<Rightarrow> string \<Rightarrow> string list" where
  "split1 sep s =
     (case dropWhile (\<lambda>c. c \<noteq> sep) s of
        [] \<Rightarrow> [s]
      | _ # after \<Rightarrow> [takeWhile (\<lambda>c. c \<noteq> sep) s, after])"

text \<open>\<open>str(n)\<close> for a non-negative integer, as the f-string \<open>f"Python 3.{minor}"\<close> formats it.\<close>

definition digit_char :: "nat \<Rightarrow> char" where
  "digit_char d = char_of (48 + d)"

function str_nat :: "nat \<Rightarrow> string" where
  "str_nat n = (if n < 10 then [digit_char n] else str_nat (n div 10) @ [digit_char (n mod 10)])"
  by pat_completeness auto
termination
  by (relation "measure id") auto

declare str_nat.simps [simp del]

text \<open>\<open>"=" * 60\<close>\<close>

definition rule60 :: string where
  "rule60 = replicate 60 (CHR ''='')"

text \<open>The check mark U+2713 in UTF-8.\<close>

definition check_mark :: string where
  "check_mark = [CHR 0xE2, CHR 0x9C, CHR 0x93]"

section \<open>Text files\<close>

text \<open>
  \<open>open(env_file)\<close> reads in text mode with universal newlines: \<open>\r\n\<close> and a lone
  \<open>\r\<close> arrive as \<open>\n\<close>, and iterating the file yields the lines with their
  terminating \<open>\n\<close> (the last line may lack one).
\<close>

fun universal_newlines :: "string \<Rightarrow> string" where
  "universal_newlines [] = []"
| "universal_newlines [c] = (if c = CHR 0x0D then [CHR 0x0A] else [c])"
| "universal_newlines (c # d # cs) =
     (if c = CHR 0x0D then
        (if d = CHR 0x0A then CHR 0x0A # universal_newlines cs
         else CHR 0x0A # universal_newlines (d # cs))
      else c # universal_newlines (d # cs))"

fun lines_from :: "string \<Rightarrow> string \<Rightarrow> string list" where
  "lines_from cur [] = (if cur = [] then [] else [cur])"
| "lines_from cur (c # cs) =
     (if c = CHR 0x0A then (cur @ [c]) # lines_from [] cs else lines_from (cur @ [c]) cs)"

definition file_lines :: "string \<Rightarrow> string list" where
  "file_lines content = lines_from [] (universal_newlines content)"

section \<open>The host and the state of a run\<close>

text \<open>
  A path is the list of its components below the root; \<open>p / name\<close> appends a component.
  A path names nothing, a directory, a text file with its decoded content, or something
  that exists and that \<open>open\<close> refuses (no permission, undecodable bytes).
\<close>

type_synonym path = "string list"

datatype node = Dir | File string | Unreadable

type_synonym filesystem = "path \<Rightarrow> node option"

text \<open>
  What \<open>subprocess.run\<close> gives back for a command: a completed process (return code,
  standard output, standard error) or an exception (time-out, missing executable,
  undecodable output) with its message and the text the child had written to standard
  output by then.
\<close>

datatype proc_outcome =
    Completed int string string
  | Raised string string

fun child_stdout :: "proc_outcome \<Rightarrow> string" where
  "child_stdout (Completed rc sout serr) = sout"
| "child_stdout (Raised msg sout) = sout"

text \<open>
  The host is everything the script reads and does not control: the platform, the command
  line, where the script is installed, how paths print, how each child process behaves and
  what it does to the file system, whether the encoding of standard output has the check
  mark (UTF-8 has it, cp1252 and ASCII have not), and the text of three library
  exceptions. A command has
  one outcome for the whole run; \<open>main\<close> spawns no command twice. The outcome covers
  the time-out: every call of the script passes one, so every child ends, by completing
  or by the exception \<open>TimeoutExpired\<close>.
\<close>

record host =
  win32 :: bool
  argv1 :: "path option"
  process_cwd :: path
  script_file :: path
  path_str :: "path \<Rightarrow> string"
  run_proc :: "string list \<Rightarrow> proc_outcome"
  proc_effect :: "string list \<Rightarrow> filesystem \<Rightarrow> filesystem"
  called_process_error_str :: "string list \<Rightarrow> int \<Rightarrow> string"
  unexpected_keyword_str :: string
  encodes_check_mark :: bool
  encode_error_str :: string

text \<open>
  The state a run changes: the file system, the text on standard output, and the commands
  spawned so far, in order. Standard output takes what the script prints and what the
  children that inherit it write, in program order (through a pipe the script's own text
  is buffered and arrives after the children's). Paths, messages of exceptions and text
  of children are taken to be text that standard output can encode; the check mark is not.
  Standard error is not modelled.
\<close>

record state =
  fs :: filesystem
  out :: string
  spawned :: "string list list"

text \<open>How a function can end other than by returning: \<open>sys.exit(n)\<close> or an exception
  nobody catches.\<close>

datatype stop = SystemExit int | Uncaught string

text \<open>The exit status of the process: an uncaught exception ends the interpreter with 1.\<close>

fun exit_status :: "stop \<Rightarrow> int" where
  "exit_status (SystemExit n) = n"
| "exit_status (Uncaught e) = 1"

text \<open>\<open>print(t)\<close>\<close>

definition print :: "string \<Rightarrow> state \<Rightarrow> state" where
  "print t s = s\<lparr>out := out s @ t @ [CHR 0x0A]\<rparr>"

text \<open>
  \<open>print(t)\<close> for a text that carries the check mark. Where standard output cannot
  encode it, \<open>print\<close> raises UnicodeEncodeError and nothing is written: the result is
  \<open>Some msg\<close>, the message of the exception, and the state is as before.
\<close>

definition print_mark :: "host \<Rightarrow> string \<Rightarrow> state \<Rightarrow> string option \<times> state" where
  "print_mark h t s =
     (if encodes_check_mark h then (None, print t s) else (Some (encode_error_str h), s))"

section \<open>The credential file\<close>

definition placeholder :: string where
  "placeholder = ''your_api_key_here''"

text \<open>
  The body of \<open>for line in f\<close> in \<open>check_env_file\<close>. \<open>line.split("=", 1)[1]\<close> raises
  IndexError when the split has one part only.
\<close>

fun check_env_lines :: "string list \<Rightarrow> stop + (bool \<times> string option)" where
  "check_env_lines [] = Inr (False, None)"
| "check_env_lines (line # rest) =
     (if startswith (strip line) ''CARVER_API_KEY='' then
        (case split1 (CHR ''='') line of
           _ # after # _ \<Rightarrow>
             (let key = strip after
              in if key \<noteq> [] \<and> key \<noteq> placeholder then Inr (True, Some key)
                 else check_env_lines rest)
         | _ \<Rightarrow> Inl (Uncaught ''IndexError''))
      else check_env_lines rest)"

definition check_env_file :: "path \<Rightarrow> state \<Rightarrow> (stop + (bool \<times> string option)) \<times> state" where
  "check_env_file cwd s =
     (let env_file = cwd @ [''.env'']
      in case fs s env_file of
           None \<Rightarrow> (Inr (False, None), s)
         | Some Dir \<Rightarrow> (Inl (Uncaught ''IsADirectoryError''), s)
         | Some Unreadable \<Rightarrow> (Inl (Uncaught ''OSError''), s)
         | Some (File content) \<Rightarrow> (check_env_lines (file_lines content), s))"

section \<open>Paths\<close>

text \<open>\<open>Path(__file__).parent.parent\<close>; the parent of the root is the root.\<close>

definition get_skill_dir :: "host \<Rightarrow> path" where
  "get_skill_dir h = butlast (butlast (script_file h))"

text \<open>The first argument of the command line, resolved, else the process's directory.\<close>

definition get_user_cwd :: "host \<Rightarrow> path" where
  "get_user_cwd h = (case argv1 h of Some p \<Rightarrow> p | None \<Rightarrow> process_cwd h)"

definition get_venv_path :: "host \<Rightarrow> path" where
  "get_venv_path h = get_skill_dir h @ [''.venv'']"

definition get_venv_python :: "host \<Rightarrow> path \<Rightarrow> path" where
  "get_venv_python h venv_path =
     (if win32 h then venv_path @ [''Scripts''] @ [''python.exe'']
      else venv_path @ [''bin''] @ [''python''])"

section \<open>Child processes\<close>

text \<open>
  \<open>subprocess.run(cmd, capture_output=True, timeout=...)\<close>: the child's output is
  captured, the command is logged, and the child's effect on the file system is applied.
\<close>

definition subprocess_run :: "host \<Rightarrow> string list \<Rightarrow> state \<Rightarrow> proc_outcome \<times> state" where
  "subprocess_run h cmd s =
     (run_proc h cmd, s\<lparr>fs := proc_effect h cmd (fs s), spawned := spawned s @ [cmd]\<rparr>)"

text \<open>
  \<open>subprocess.check_call(cmd, timeout=...)\<close> returns \<open>None\<close> here when the child
  exits with 0 and \<open>Some msg\<close> when it raises: CalledProcessError on a non-zero return
  code, or whatever starting or waiting for the child raised. The child inherits standard
  output, so what it writes lands there. \<open>check_call\<close> hands its keyword arguments to
  \<open>Popen\<close>, which has no \<open>capture_output\<close> parameter: with that keyword it raises
  TypeError before any child is started.
\<close>

definition check_call :: "host \<Rightarrow> string list \<Rightarrow> bool \<Rightarrow> state \<Rightarrow> string option \<times> state" where
  "check_call h cmd capture_output_kw s =
     (if capture_output_kw then (Some (unexpected_keyword_str h), s)
      else
        (let r = run_proc h cmd;
             s' = s\<lparr>fs := proc_effect h cmd (fs s),
                    out := out s @ child_stdout r,
                    spawned := spawned s @ [cmd]\<rparr>
         in case r of
              Completed rc sout serr \<Rightarrow>
                (if rc = 0 then (None, s') else (Some (called_process_error_str h cmd rc), s'))
            | Raised msg sout \<Rightarrow> (Some msg, s')))"

section \<open>Finding an interpreter\<close>

definition candidates :: "string list" where
  "candidates =
     [''python3.12'', ''python3.11'', ''python3.10'', ''python3'',
      ''/usr/bin/python3.12'', ''/usr/bin/python3.11'', ''/usr/bin/python3.10'',
      ''/usr/local/bin/python3.12'', ''/usr/local/bin/python3.11'', ''/usr/local/bin/python3.10'',
      ''/opt/homebrew/bin/python3.12'', ''/opt/homebrew/bin/python3.11'',
      ''/opt/homebrew/bin/python3.10'']"

text \<open>\<open>any(f"Python 3.{minor}" in version_output for minor in [10, 11, 12])\<close>\<close>

definition version_ok :: "string \<Rightarrow> bool" where
  "version_ok version_output =
     list_ex (\<lambda>minor. contains (''Python 3.'' @ str_nat minor) version_output) [10, 11, 12]"

text \<open>The \<open>for candidate in candidates\<close> loop, and what follows it.\<close>

fun try_candidates ::
  "host \<Rightarrow> string list \<Rightarrow> state \<Rightarrow> (string option \<times> string option) \<times> state" where
  "try_candidates h [] s = ((None, None), s)"
| "try_candidates h (candidate # rest) s =
     (case subprocess_run h [candidate, ''--version''] s of
        (Completed rc sout serr, s1) \<Rightarrow>
          (if rc = 0 then
             (let version_output = strip sout
              in if version_ok version_output then ((Some candidate, Some version_output), s1)
                 else try_candidates h rest s1)
           else try_candidates h rest s1)
      | (Raised msg sout, s1) \<Rightarrow> try_candidates h rest s1)"

definition find_compatible_python ::
  "host \<Rightarrow> state \<Rightarrow> (string option \<times> string option) \<times> state" where
  "find_compatible_python h s = try_candidates h candidates s"

section \<open>The steps\<close>

text \<open>How an f-string prints a value that may be \<open>None\<close>.\<close>

definition format_opt :: "string option \<Rightarrow> string" where
  "format_opt v = (case v of None \<Rightarrow> ''None'' | Some t \<Rightarrow> t)"

text \<open>The branch of \<open>ensure_venv\<close> taken when \<open>not python_exe\<close>.\<close>

definition no_python_found :: "state \<Rightarrow> (stop + path) \<times> state" where
  "no_python_found s =
     (let s1 = print ''\<newline>ERROR: Python 3.10, 3.11, or 3.12 is required but not found.'' s;
          s2 = print ''\<newline>The carver-feeds-sdk requires Python 3.10+.'' s1;
          s3 = print ''\<newline>Please install a compatible Python version:'' s2;
          s4 = print ''  - macOS: brew install python@3.12'' s3;
          s5 = print ''  - Ubuntu: sudo apt install python3.12'' s4;
          s6 = print ''  - Windows: Download from python.org'' s5
      in (Inl (SystemExit 1), s6))"

definition ensure_venv :: "host \<Rightarrow> state \<Rightarrow> (stop + path) \<times> state" where
  "ensure_venv h s =
     (let venv_path = get_venv_path h
      in if fs s venv_path \<noteq> None then (Inr (get_venv_python h venv_path), s)
         else
           (let s1 = print ''Creating virtual environment...'' s
            in case find_compatible_python h s1 of
                 ((python_exe, version), s2) \<Rightarrow>
                   (case python_exe of
                      None \<Rightarrow> no_python_found s2
                    | Some exe \<Rightarrow>
                        if exe = [] then no_python_found s2
                        else
                          (case print_mark h (check_mark @ '' Found compatible Python: ''
                                                @ format_opt version) s2 of
                             (Some e, s3) \<Rightarrow> (Inl (Uncaught e), s3)
                           | (None, s3) \<Rightarrow>
                               (case check_call h [exe, ''-m'', ''venv'', path_str h venv_path]
                                       False s3 of
                                  (Some e, s4) \<Rightarrow>
                                    (Inl (SystemExit 1),
                                     print (''ERROR: Failed to create virtual environment: '' @ e)
                                       s4)
                                | (None, s4) \<Rightarrow>
                                    (case print_mark h
                                            (check_mark @ '' Virtual environment created'') s4 of
                                       (None, s5) \<Rightarrow> (Inr (get_venv_python h venv_path), s5)
                                     | (Some e, s5) \<Rightarrow>
                                         (Inl (SystemExit 1),
                                          print (''ERROR: Failed to create virtual environment: ''
                                                   @ e) s5)))))))"

definition is_sdk_installed :: "host \<Rightarrow> path \<Rightarrow> state \<Rightarrow> bool \<times> state" where
  "is_sdk_installed h python_exe s =
     (case subprocess_run h [path_str h python_exe, ''-c'', ''import carver_feeds''] s of
        (Completed rc sout serr, s1) \<Rightarrow> (rc = 0, s1)
      | (Raised msg sout, s1) \<Rightarrow> (False, s1))"

definition upgrade_pip :: "host \<Rightarrow> path \<Rightarrow> state \<Rightarrow> bool \<times> state" where
  "upgrade_pip h python_exe s =
     (let s1 = print ''Upgrading pip...'' s
      in case check_call h
                [path_str h python_exe, ''-m'', ''pip'', ''install'', ''--upgrade'', ''pip'']
                True s1 of
           (Some e, s2) \<Rightarrow> (False, print (''WARNING: Could not upgrade pip: '' @ e) s2)
         | (None, s2) \<Rightarrow>
             (case print_mark h (check_mark @ '' pip upgraded'') s2 of
                (None, s3) \<Rightarrow> (True, s3)
              | (Some e, s3) \<Rightarrow>
                  (False, print (''WARNING: Could not upgrade pip: '' @ e) s3)))"

definition install_sdk :: "host \<Rightarrow> path \<Rightarrow> state \<Rightarrow> (stop + bool) \<times> state" where
  "install_sdk h python_exe s =
     (let s1 = print ''Installing carver-feeds-sdk...'' s
      in case check_call h
                [path_str h python_exe, ''-m'', ''pip'', ''install'', ''carver-feeds-sdk'']
                False s1 of
           (Some e, s2) \<Rightarrow>
             (Inl (SystemExit 1), print (''ERROR: Failed to install SDK: '' @ e) s2)
         | (None, s2) \<Rightarrow>
             (case print_mark h (check_mark @ '' SDK installed'') s2 of
                (None, s3) \<Rightarrow> (Inr True, s3)
              | (Some e, s3) \<Rightarrow>
                  (Inl (SystemExit 1), print (''ERROR: Failed to install SDK: '' @ e) s3)))"

definition ensure_python_dotenv :: "host \<Rightarrow> path \<Rightarrow> state \<Rightarrow> bool \<times> state" where
  "ensure_python_dotenv h python_exe s =
     (case subprocess_run h [path_str h python_exe, ''-c'', ''import dotenv''] s of
        (Completed rc sout serr, s1) \<Rightarrow>
          (if rc = 0 then (True, s1)
           else
             (case check_call h
                     [path_str h python_exe, ''-m'', ''pip'', ''install'', ''-q'',
                      ''python-dotenv'']
                     False s1 of
                (None, s2) \<Rightarrow> (True, s2)
              | (Some e, s2) \<Rightarrow> (False, s2)))
      | (Raised msg sout, s1) \<Rightarrow> (False, s1))"

definition prompt_for_api_key :: "host \<Rightarrow> path \<Rightarrow> state \<Rightarrow> stop \<times> state" where
  "prompt_for_api_key h cwd s =
     (let s1 = print (''\<newline>'' @ rule60) s;
          s2 = print ''CARVER API KEY REQUIRED'' s1;
          s3 = print rule60 s2;
          s4 = print ''\<newline>The Carver Feeds SDK requires an API key to function.'' s3;
          s5 = print ''\<newline>To get your API key:'' s4;
          s6 = print ''1. Visit: https://app.carveragents.ai'' s5;
          s7 = print ''2. Sign in or create an account'' s6;
          s8 = print ''3. Copy your API key'' s7;
          s9 = print ''\<newline>Please provide your Carver API key to continue.'' s8;
          s10 = print (''\<newline>(The key will be saved to '' @ path_str h cwd @ ''/.env)'') s9;
          s11 = print rule60 s10;
          s12 = print ''\<newline>API_KEY_REQUIRED'' s11;
          s13 = print (''CWD='' @ path_str h cwd) s12
      in (SystemExit 2, s13))"

text \<open>The script handed to the interpreter of the environment, with \<open>{cwd}\<close> filled in.\<close>

definition test_script :: "string \<Rightarrow> string" where
  \<open>test_script cwd_str =
     ''\<newline>import os\<newline>import sys\<newline>from pathlib import Path\<newline>''
     @ ''from dotenv import load_dotenv\<newline>\<newline>''
     @ ''# Load .env file from CWD\<newline>''
     @ ''env_file = Path(r"'' @ cwd_str @ ''") / ".env"\<newline>''
     @ ''if not env_file.exists():\<newline>''
     @ ''    print("ERROR: .env file not found in CWD")\<newline>''
     @ ''    sys.exit(1)\<newline>\<newline>''
     @ ''load_dotenv(env_file)\<newline>\<newline>''
     @ ''# Test connection\<newline>''
     @ ''from carver_feeds import get_client\<newline>''
     @ ''client = get_client()\<newline>''
     @ ''topics = client.list_topics()\<newline>''
     @ ''print(f"SUCCESS: Connected! Found {len(topics)} topics")\<newline>''\<close>

definition test_sdk_connection :: "host \<Rightarrow> path \<Rightarrow> path \<Rightarrow> state \<Rightarrow> bool \<times> state" where
  "test_sdk_connection h python_exe cwd s =
     (case subprocess_run h [path_str h python_exe, ''-c'', test_script (path_str h cwd)] s of
        (Completed rc sout serr, s1) \<Rightarrow>
          (if rc = 0 \<and> contains ''SUCCESS'' sout then
             (case print_mark h (check_mark @ '' SDK connection verified'') s1 of
                (None, s2) \<Rightarrow> (True, s2)
              | (Some e, s2) \<Rightarrow>
                  (False, print (''ERROR: Failed to test SDK connection: '' @ e) s2))
           else
             (let s2 = print ''ERROR: SDK connection failed'' s1;
                  s3 = (if serr \<noteq> [] then print (''  '' @ serr) s2 else s2);
                  s4 = (if sout \<noteq> [] \<and> contains ''ERROR'' sout then print (''  '' @ sout) s3
                        else s3)
              in (False, s4)))
      | (Raised msg sout, s1) \<Rightarrow>
          (False, print (''ERROR: Failed to test SDK connection: '' @ msg) s1))"

section \<open>The provisioning routine\<close>

definition main :: "host \<Rightarrow> state \<Rightarrow> stop \<times> state" where
  "main h s =
     (let user_cwd = get_user_cwd h;
          skill_dir = get_skill_dir h;
          s1 = print (''Skill directory: '' @ path_str h skill_dir) s;
          s2 = print (''Working directory: '' @ path_str h user_cwd) s1;
          s3 = print [] s2
      in case ensure_venv h s3 of
           (Inl stopped, s4) \<Rightarrow> (stopped, s4)
         | (Inr python_exe, s4) \<Rightarrow>
             (let (upgraded, s5) = upgrade_pip h python_exe s4;
                  (installed, s6) = is_sdk_installed h python_exe s5
              in case (if \<not> installed then install_sdk h python_exe s6 else (Inr True, s6)) of
                   (Inl stopped, s7) \<Rightarrow> (stopped, s7)
                 | (Inr done, s7) \<Rightarrow>
                     (let (have_dotenv, s8) = ensure_python_dotenv h python_exe s7
                      in case check_env_file user_cwd s8 of
                           (Inl stopped, s9) \<Rightarrow> (stopped, s9)
                         | (Inr (has_key, api_key), s9) \<Rightarrow>
                             if \<not> has_key then prompt_for_api_key h user_cwd s9
                             else
                               (case test_sdk_connection h python_exe user_cwd s9 of
                                  (connected, s10) \<Rightarrow>
                                    if \<not> connected then
                                      (let s11 = print
                                             ''\<newline>ERROR: SDK is installed but cannot connect to API.''
                                             s10;
                                           s12 = print
                                             ''Please check your API key and network connection.''
                                             s11;
                                           s13 = print (''Looking for .env in: ''
                                                          @ path_str h user_cwd) s12
                                       in (SystemExit 1, s13))
                                    else
                                      (let s11 = print (''\<newline>VENV_PYTHON=''
                                                          @ path_str h python_exe) s10;
                                           s12 = print (''CWD='' @ path_str h user_cwd) s11
                                       in (SystemExit 0, s12))))))"

section \<open>Notions used to state the properties\<close>

text \<open>
  The value of a credential line as the specification words it: the text after the first
  \<open>=\<close>, trimmed. A line counts when its trimmed text starts with the key name and
  \<open>=\<close>, and its value is neither empty nor the placeholder.
\<close>

definition env_value :: "string \<Rightarrow> string" where
  "env_value line = strip (tl (dropWhile (\<lambda>c. c \<noteq> CHR ''='') line))"

definition valid_key_line :: "string \<Rightarrow> bool" where
  "valid_key_line line =
     (startswith (strip line) ''CARVER_API_KEY='' \<and> env_value line \<noteq> []
      \<and> env_value line \<noteq> placeholder)"

text \<open>
  A candidate is acceptable when its version query completes with return code 0 and a
  version text that passes \<^const>\<open>version_ok\<close>; a query that raises is not acceptable.
\<close>

definition accepts :: "host \<Rightarrow> string \<Rightarrow> bool" where
  "accepts h candidate =
     (case run_proc h [candidate, ''--version''] of
        Completed rc sout serr \<Rightarrow> rc = 0 \<and> version_ok (strip sout)
      | Raised msg sout \<Rightarrow> False)"

definition reported_version :: "host \<Rightarrow> string \<Rightarrow> string" where
  "reported_version h candidate = strip (child_stdout (run_proc h [candidate, ''--version'']))"

text \<open>What a sequence of child processes does to the file system.\<close>

definition child_effects :: "host \<Rightarrow> string list list \<Rightarrow> filesystem \<Rightarrow> filesystem" where
  "child_effects h cmds f = foldl (\<lambda>g cmd. proc_effect h cmd g) f cmds"

text \<open>The commands of the run, as \<open>main\<close> builds them.\<close>

definition venv_python :: "host \<Rightarrow> path" where
  "venv_python h = get_venv_python h (get_venv_path h)"

definition env_file_of :: "host \<Rightarrow> path" where
  "env_file_of h = get_user_cwd h @ [''.env'']"

definition sdk_probe_cmd :: "host \<Rightarrow> string list" where
  "sdk_probe_cmd h = [path_str h (venv_python h), ''-c'', ''import carver_feeds'']"

definition sdk_install_cmd :: "host \<Rightarrow> string list" where
  "sdk_install_cmd h =
     [path_str h (venv_python h), ''-m'', ''pip'', ''install'', ''carver-feeds-sdk'']"

definition dotenv_probe_cmd :: "host \<Rightarrow> string list" where
  "dotenv_probe_cmd h = [path_str h (venv_python h), ''-c'', ''import dotenv'']"

definition dotenv_install_cmd :: "host \<Rightarrow> string list" where
  "dotenv_install_cmd h =
     [path_str h (venv_python h), ''-m'', ''pip'', ''install'', ''-q'', ''python-dotenv'']"

definition verify_cmd :: "host \<Rightarrow> string list" where
  "verify_cmd h =
     [path_str h (venv_python h), ''-c'', test_script (path_str h (get_user_cwd h))]"

text \<open>The three lines \<open>main\<close> prints first.\<close>

definition banner :: "host \<Rightarrow> state \<Rightarrow> state" where
  "banner h s =
     print [] (print (''Working directory: '' @ path_str h (get_user_cwd h))
       (print (''Skill directory: '' @ path_str h (get_skill_dir h)) s))"

text \<open>Steps 2 to 4 of \<open>main\<close>, after the environment exists: the pip upgrade, the SDK
  probe and install, the helper install.\<close>

definition install_steps :: "host \<Rightarrow> path \<Rightarrow> state \<Rightarrow> (stop + path) \<times> state" where
  "install_steps h python_exe s4 =
     (let (upgraded, s5) = upgrade_pip h python_exe s4;
          (installed, s6) = is_sdk_installed h python_exe s5
      in case (if \<not> installed then install_sdk h python_exe s6 else (Inr True, s6)) of
           (Inl stopped, s7) \<Rightarrow> (Inl stopped, s7)
         | (Inr done, s7) \<Rightarrow> (Inr python_exe, snd (ensure_python_dotenv h python_exe s7)))"

text \<open>Steps 1 to 4 of \<open>main\<close>: everything before the credential check.\<close>

definition prepare :: "host \<Rightarrow> state \<Rightarrow> (stop + path) \<times> state" where
  "prepare h s =
     (case ensure_venv h (banner h s) of
        (Inl stopped, s4) \<Rightarrow> (Inl stopped, s4)
      | (Inr python_exe, s4) \<Rightarrow> install_steps h python_exe s4)"

text \<open>The lines \<open>main\<close> prints when verification failed, and when it succeeded.\<close>

definition verification_failed_text :: "host \<Rightarrow> string" where
  "verification_failed_text h =
     ''\<newline>ERROR: SDK is installed but cannot connect to API.\<newline>''
     @ ''Please check your API key and network connection.\<newline>''
     @ ''Looking for .env in: '' @ path_str h (get_user_cwd h) @ ''\<newline>''"

definition success_text :: "host \<Rightarrow> string" where
  "success_text h =
     ''\<newline>VENV_PYTHON='' @ path_str h (venv_python h) @ ''\<newline>''
     @ ''CWD='' @ path_str h (get_user_cwd h) @ ''\<newline>''"

text \<open>Steps 5 to 8 of \<open>main\<close>: the credential check, the verification, the report.\<close>

definition credential_and_verify :: "host \<Rightarrow> path \<Rightarrow> state \<Rightarrow> stop \<times> state" where
  "credential_and_verify h python_exe s8 =
     (case check_env_file (get_user_cwd h) s8 of
        (Inl stopped, s9) \<Rightarrow> (stopped, s9)
      | (Inr (has_key, api_key), s9) \<Rightarrow>
          if \<not> has_key then prompt_for_api_key h (get_user_cwd h) s9
          else
            (case test_sdk_connection h python_exe (get_user_cwd h) s9 of
               (connected, s10) \<Rightarrow>
                 if \<not> connected then
                   (SystemExit 1, s10\<lparr>out := out s10 @ verification_failed_text h\<rparr>)
                 else
                   (SystemExit 0,
                    s10\<lparr>out := out s10 @ ''\<newline>VENV_PYTHON='' @ path_str h python_exe
                            @ ''\<newline>CWD='' @ path_str h (get_user_cwd h) @ ''\<newline>''\<rparr>)))"

text \<open>
  \<open>only_children h s s'\<close>: from \<open>s\<close> to \<open>s'\<close> the log of spawned commands has grown at
  its end only, and the file system of \<open>s'\<close> is that of \<open>s\<close> after the effects of the
  commands added, in order: nothing but child processes has touched it.
\<close>

definition only_children :: "host \<Rightarrow> state \<Rightarrow> state \<Rightarrow> bool" where
  "only_children h s s' =
     (take (length (spawned s)) (spawned s') = spawned s
      \<and> fs s' = child_effects h (drop (length (spawned s)) (spawned s')) (fs s))"

text \<open>
  \<open>emit h printed cmds s\<close> is \<open>s\<close> after \<open>printed\<close> went to standard output and the commands
  \<open>cmds\<close> were spawned. A step is oblivious when that is all it does to the state, with a
  result, a text and commands that do not depend on the state it starts from; they are
  then read off a run from the blank state.
\<close>

definition emit :: "host \<Rightarrow> string \<Rightarrow> string list list \<Rightarrow> state \<Rightarrow> state" where
  "emit h printed cmds s =
     s\<lparr>fs := child_effects h cmds (fs s), out := out s @ printed, spawned := spawned s @ cmds\<rparr>"

definition blank :: state where
  "blank = \<lparr>fs = Map.empty, out = [], spawned = []\<rparr>"

definition value_of :: "(state \<Rightarrow> 'a \<times> state) \<Rightarrow> 'a" where
  "value_of f = fst (f blank)"

definition emitted :: "(state \<Rightarrow> 'a \<times> state) \<Rightarrow> string" where
  "emitted f = out (snd (f blank))"

definition cmds_of :: "(state \<Rightarrow> 'a \<times> state) \<Rightarrow> string list list" where
  "cmds_of f = spawned (snd (f blank))"

definition oblivious :: "host \<Rightarrow> (state \<Rightarrow> 'a \<times> state) \<Rightarrow> bool" where
  "oblivious h f = (\<forall>s. f s = (value_of f, emit h (emitted f) (cmds_of f) s))"

text \<open>
  The outcome of the verification child that \<open>test_sdk_connection\<close> looks for: it
  completed with return code 0 and \<open>SUCCESS\<close> occurs in its standard output.
\<close>

fun child_passed :: "proc_outcome \<Rightarrow> bool" where
  "child_passed (Completed rc sout serr) = (rc = 0 \<and> contains ''SUCCESS'' sout)"
| "child_passed (Raised msg sout) = False"


text \<open>
  The child process for a command runs to completion with return code 0: it neither exits
  with another code nor raises (a time-out, a missing executable).
\<close>

definition completes_ok :: "host \<Rightarrow> string list \<Rightarrow> bool" where
  "completes_ok h cmd =
     (case run_proc h cmd of Completed rc sout serr \<Rightarrow> rc = 0 | Raised msg sout \<Rightarrow> False)"

section \<open>A concrete host\<close>

text \<open>
  A POSIX host on which the properties below are exercised: \<open>python3.12\<close> is missing,
  \<open>python3.11\<close> and \<open>python3.10\<close> are installed, the SDK is not yet in the environment,
  every install works, the service answers, and standard output is in UTF-8.
\<close>

definition posix_str :: "path \<Rightarrow> string" where
  "posix_str p = (if p = [] then ''/'' else concat (map (\<lambda>c. ''/'' @ c) p))"

definition demo_proc :: "string list \<Rightarrow> proc_outcome" where
  "demo_proc cmd =
     (if cmd = [''python3.11'', ''--version''] then Completed 0 ''Python 3.11.4\<newline>'' []
      else if cmd = [''python3.10'', ''--version''] then Completed 0 ''Python 3.10.1\<newline>'' []
      else if last cmd = ''--version'' then Raised ''FileNotFoundError'' []
      else if last cmd = ''import carver_feeds'' then Completed 1 [] ''ModuleNotFoundError''
      else if last cmd = ''/skill/.venv'' then Completed 0 [] []
      else if last cmd = ''carver-feeds-sdk'' then Completed 0 ''Successfully installed\<newline>'' []
      else if last cmd = ''import dotenv'' then Completed 0 [] []
      else Completed 0 ''SUCCESS: Connected! Found 3 topics\<newline>'' [])"

definition demo_effect :: "string list \<Rightarrow> filesystem \<Rightarrow> filesystem" where
  "demo_effect cmd f = (if last cmd = ''/skill/.venv'' then f([''skill'', ''.venv''] \<mapsto> Dir) else f)"

definition demo_host :: host where
  "demo_host =
     \<lparr>win32 = False, argv1 = Some [''work''], process_cwd = [''home''],
      script_file = [''skill'', ''scripts'', ''auto_init.py''], path_str = posix_str,
      run_proc = demo_proc, proc_effect = demo_effect,
      called_process_error_str = (\<lambda>cmd rc. ''returned non-zero exit status''),
      unexpected_keyword_str = ''unexpected keyword argument'',
      encodes_check_mark = True,
      encode_error_str = ''codec cannot encode character''\<rparr>"

definition demo_state :: "string \<Rightarrow> state" where
  "demo_state content =
     \<lparr>fs = Map.empty([''work'', ''.env''] \<mapsto> File content), out = [], spawned = []\<rparr>"

text \<open>The same host with another table of child processes.\<close>

definition host_with :: "(string list \<Rightarrow> proc_outcome) \<Rightarrow> host" where
  "host_with procs = demo_host\<lparr>run_proc := procs\<rparr>"

text \<open>A host on which \<open>python3.12\<close> is found and every other child process fails.\<close>

definition failing_host :: host where
  "failing_host =
     host_with (\<lambda>cmd. if last cmd = ''--version'' then Completed 0 ''Python 3.12.1\<newline>'' []
                      else Completed 1 [] ''Error: no space left on device'')"

text \<open>
  A host whose environment is complete and whose verification script exits with 1 after
  writing one line to standard output; and a state in which the environment directory
  and a credential file with a key exist.
\<close>

definition rejecting_host :: host where
  "rejecting_host =
     host_with (\<lambda>cmd. if last cmd = ''import carver_feeds'' \<or> last cmd = ''import dotenv''
                      then Completed 0 [] []
                      else Completed 1 ''HTTP 401 Unauthorized\<newline>'' [])"

definition ready_state :: state where
  "ready_state =
     \<lparr>fs = Map.empty([''skill'', ''.venv''] \<mapsto> Dir,
                       [''work'', ''.env''] \<mapsto> File ''CARVER_API_KEY=abc\<newline>''),
      out = [], spawned = []\<rparr>"

text \<open>
  A host on which the helper \<open>python-dotenv\<close> is missing and cannot be installed, and
  everything else works.
\<close>

definition no_dotenv_host :: host where
  "no_dotenv_host =
     host_with (\<lambda>cmd. if last cmd = ''import dotenv'' \<or> last cmd = ''python-dotenv''
                      then Completed 1 [] ''ERROR: No matching distribution''
                      else Completed 0 ''SUCCESS: Connected! Found 3 topics\<newline>'' [])"

text \<open>
  A host whose standard output cannot encode the check mark (a console in a legacy code
  page), and where all else works: \<open>python3.12\<close> is found and every other child process
  completes with return code 0 and the line of a successful verification.
\<close>

definition cp1252_host :: host where
  "cp1252_host =
     (host_with (\<lambda>cmd. if last cmd = ''--version'' then Completed 0 ''Python 3.12.1\<newline>'' []
                       else Completed 0 ''SUCCESS: Connected! Found 3 topics\<newline>'' []))
       \<lparr>encodes_check_mark := False\<rparr>"

section \<open>Facts about the string operations\<close>

lemma startswith_iff: "startswith s p \<longleftrightarrow> (\<exists>post. s = p @ post)"
  unfolding startswith_def
proof
  assume "take (length p) s = p"
  then have "s = p @ drop (length p) s" by (metis append_take_drop_id)
  then show "\<exists>post. s = p @ post" ..
next
  assume "\<exists>post. s = p @ post"
  then show "take (length p) s = p" by auto
qed

lemma contains_iff: "contains sub s \<longleftrightarrow> (\<exists>pre post. s = pre @ sub @ post)"
proof (induction s)
  case Nil
  show ?case by auto
next
  case (Cons c cs)
  show ?case
  proof
    assume "contains sub (c # cs)"
    then consider "startswith (c # cs) sub" | "contains sub cs" by auto
    then show "\<exists>pre post. c # cs = pre @ sub @ post"
    proof cases
      case 1
      then obtain post where "c # cs = sub @ post" by (auto simp: startswith_iff)
      then have "c # cs = [] @ sub @ post" by simp
      then show ?thesis by blast
    next
      case 2
      then obtain pre post where "cs = pre @ sub @ post" using Cons.IH by auto
      then have "c # cs = (c # pre) @ sub @ post" by simp
      then show ?thesis by blast
    qed
  next
    assume "\<exists>pre post. c # cs = pre @ sub @ post"
    then obtain pre post where eq: "c # cs = pre @ sub @ post" by auto
    show "contains sub (c # cs)"
    proof (cases pre)
      case Nil
      with eq have "startswith (c # cs) sub" by (auto simp: startswith_iff)
      then show ?thesis by simp
    next
      case (Cons a pre')
      with eq have "cs = pre' @ sub @ post" by simp
      then have "contains sub cs" using Cons.IH by blast
      then show ?thesis by simp
    qed
  qed
qed

lemma set_drop_leading: "set (drop_leading seqs s) \<subseteq> set s"
proof (induction seqs s rule: drop_leading.induct)
  case (1 seqs s)
  show ?case
  proof (cases "find (\<lambda>w. w \<noteq> [] \<and> startswith s w) seqs")
    case None
    then show ?thesis by (simp add: drop_leading.simps[of seqs s])
  next
    case (Some w)
    then have "set (drop_leading seqs (drop (length w) s)) \<subseteq> set (drop (length w) s)"
      using 1 by simp
    also have "\<dots> \<subseteq> set s" by (rule set_drop_subset)
    finally show ?thesis using Some by (simp add: drop_leading.simps[of seqs s])
  qed
qed

lemma startswith_append_stop:
  assumes "c \<notin> set w"
  shows "startswith (a @ c # b) w \<longleftrightarrow> startswith a w"
proof
  assume s: "startswith (a @ c # b) w"
  show "startswith a w"
  proof (cases "length w \<le> length a")
    case True
    with s show ?thesis by (simp add: startswith_def)
  next
    case False
    with s have "w = a @ take (length w - length a) (c # b)" by (simp add: startswith_def)
    moreover from False have "take (length w - length a) (c # b) = c # take (length w - length a - 1) b"
      by (cases "length w - length a") simp_all
    ultimately have "c \<in> set w" by (metis in_set_conv_decomp)
    with assms show ?thesis by simp
  qed
next
  assume s: "startswith a w"
  then have "length (take (length w) a) = length w" by (simp add: startswith_def)
  then have "length w \<le> length a" by simp
  with s show "startswith (a @ c # b) w" by (simp add: startswith_def)
qed

lemma drop_leading_stop:
  assumes "\<forall>w\<in>set seqs. c \<notin> set w"
  shows "drop_leading seqs (a @ c # b) = drop_leading seqs a @ c # b"
  using assms
proof (induction seqs a rule: drop_leading.induct)
  case (1 seqs a)
  note * = \<open>\<forall>w\<in>set seqs. c \<notin> set w\<close>
  have same: "find (\<lambda>w. w \<noteq> [] \<and> startswith (a @ c # b) w) seqs
                = find (\<lambda>w. w \<noteq> [] \<and> startswith a w) seqs"
    using * by (intro find_cong) (auto simp: startswith_append_stop)
  show ?case
  proof (cases "find (\<lambda>w. w \<noteq> [] \<and> startswith a w) seqs")
    case None
    with same show ?thesis
      by (simp add: drop_leading.simps[of seqs a] drop_leading.simps[of seqs "a @ c # b"])
  next
    case (Some w)
    then have "startswith a w" by (auto simp: find_Some_iff)
    then have "length (take (length w) a) = length w" by (simp add: startswith_def)
    then have len: "length w \<le> length a" by simp
    have "drop_leading seqs (drop (length w) a @ c # b)
            = drop_leading seqs (drop (length w) a) @ c # b"
      using "1.IH"[OF Some *] .
    with same Some len show ?thesis
      by (simp add: drop_leading.simps[of seqs a] drop_leading.simps[of seqs "a @ c # b"])
  qed
qed

lemma drop_leading_Nil_set:
  "drop_leading seqs s = [] \<Longrightarrow> set s \<subseteq> \<Union>(set ` set seqs)"
proof (induction seqs s rule: drop_leading.induct)
  case (1 seqs s)
  show ?case
  proof (cases "find (\<lambda>w. w \<noteq> [] \<and> startswith s w) seqs")
    case None
    with 1(2) show ?thesis by (simp add: drop_leading.simps[of seqs s])
  next
    case (Some w)
    then have w: "w \<in> set seqs" "take (length w) s = w"
      by (auto simp: find_Some_iff startswith_def)
    from Some 1(2) have "drop_leading seqs (drop (length w) s) = []"
      by (simp add: drop_leading.simps[of seqs s])
    then have "set (drop (length w) s) \<subseteq> \<Union>(set ` set seqs)"
      using 1(1) Some by simp
    moreover have "set (take (length w) s) \<subseteq> \<Union>(set ` set seqs)"
      using w by auto
    moreover have "set s = set (take (length w) s) \<union> set (drop (length w) s)"
      by (metis append_take_drop_id set_append)
    ultimately show ?thesis by blast
  qed
qed


lemma eq_not_space: "\<forall>w\<in>set unicode_spaces. CHR ''='' \<notin> set w"
  by (simp add: unicode_spaces_def)

lemma eq_not_space_rev: "\<forall>w\<in>set (map rev unicode_spaces). CHR ''='' \<notin> set w"
  using eq_not_space by simp

lemma C_not_space: "\<forall>w\<in>set unicode_spaces. CHR ''C'' \<notin> set w"
  by (simp add: unicode_spaces_def)

lemma set_strip: "set (strip s) \<subseteq> set s"
proof -
  have "set (rstrip s) \<subseteq> set s"
    unfolding rstrip_def using set_drop_leading[of "map rev unicode_spaces" "rev s"] by simp
  moreover have "set (lstrip (rstrip s)) \<subseteq> set (rstrip s)"
    unfolding lstrip_def by (rule set_drop_leading)
  ultimately show ?thesis unfolding strip_def by blast
qed

lemma key_line_has_eq:
  assumes "startswith (strip line) ''CARVER_API_KEY=''"
  shows "dropWhile (\<lambda>c. c \<noteq> CHR ''='') line \<noteq> []"
proof -
  from assms obtain post where "strip line = ''CARVER_API_KEY='' @ post"
    by (auto simp: startswith_iff)
  then have "CHR ''='' \<in> set (strip line)" by simp
  then have "CHR ''='' \<in> set line" using set_strip by blast
  then show ?thesis by (simp add: dropWhile_eq_Nil_conv)
qed

lemma split1_key_line:
  assumes "startswith (strip line) ''CARVER_API_KEY=''"
  shows "split1 (CHR ''='') line
           = [takeWhile (\<lambda>c. c \<noteq> CHR ''='') line, tl (dropWhile (\<lambda>c. c \<noteq> CHR ''='') line)]"
  using key_line_has_eq[OF assms] by (auto simp: split1_def split: list.splits)

lemma check_env_lines_step:
  "check_env_lines (line # rest) =
     (if valid_key_line line then Inr (True, Some (env_value line)) else check_env_lines rest)"
proof (cases "startswith (strip line) ''CARVER_API_KEY=''")
  case True
  then show ?thesis
    by (simp add: split1_key_line valid_key_line_def env_value_def Let_def)
next
  case False
  then show ?thesis by (simp add: valid_key_line_def)
qed

lemma check_env_lines_find:
  "check_env_lines ls =
     (case find valid_key_line ls of
        None \<Rightarrow> Inr (False, None)
      | Some l \<Rightarrow> Inr (True, Some (env_value l)))"
proof (induction ls)
  case Nil
  show ?case by simp
next
  case (Cons l ls)
  then show ?case by (simp only: check_env_lines_step find.simps split: if_splits) simp
qed

lemma white_space_no_eq:
  assumes "lstrip ws = []"
  shows "CHR ''='' \<notin> set ws"
proof -
  from assms have "set ws \<subseteq> \<Union>(set ` set unicode_spaces)"
    unfolding lstrip_def by (rule drop_leading_Nil_set)
  with eq_not_space show ?thesis by blast
qed

lemma env_value_key_line:
  assumes "lstrip ws = []"
  shows "env_value (ws @ ''CARVER_API_KEY='' @ v) = strip v"
proof -
  have "\<forall>c\<in>set ws. c \<noteq> CHR ''=''" using white_space_no_eq[OF assms] by blast
  then have "dropWhile (\<lambda>c. c \<noteq> CHR ''='') (ws @ ''CARVER_API_KEY='' @ v) = CHR ''='' # v"
    by (simp add: dropWhile_append)
  then show ?thesis by (simp add: env_value_def)
qed

lemma rstrip_key_line:
  "rstrip (a @ CHR ''='' # v) = a @ CHR ''='' # rstrip v"
proof -
  have "drop_leading (map rev unicode_spaces) (rev v @ CHR ''='' # rev a)
          = drop_leading (map rev unicode_spaces) (rev v) @ CHR ''='' # rev a"
    by (rule drop_leading_stop[OF eq_not_space_rev])
  then show ?thesis by (simp add: rstrip_def)
qed

lemma strip_key_line:
  assumes "lstrip ws = []"
  shows "strip (ws @ ''CARVER_API_KEY='' @ v) = ''CARVER_API_KEY='' @ rstrip v"
proof -
  have "rstrip ((ws @ ''CARVER_API_KEY'') @ CHR ''='' # v)
          = (ws @ ''CARVER_API_KEY'') @ CHR ''='' # rstrip v"
    by (rule rstrip_key_line)
  then have r: "rstrip (ws @ ''CARVER_API_KEY='' @ v)
                  = ws @ CHR ''C'' # (''ARVER_API_KEY='' @ rstrip v)"
    by simp
  have "lstrip (ws @ CHR ''C'' # (''ARVER_API_KEY='' @ rstrip v))
          = lstrip ws @ CHR ''C'' # (''ARVER_API_KEY='' @ rstrip v)"
    unfolding lstrip_def by (rule drop_leading_stop[OF C_not_space])
  with r assms show ?thesis by (simp add: strip_def)
qed

lemma valid_key_line_shape:
  assumes "lstrip ws = []"
  shows "valid_key_line (ws @ ''CARVER_API_KEY='' @ v) \<longleftrightarrow> strip v \<noteq> [] \<and> strip v \<noteq> placeholder"
  unfolding valid_key_line_def strip_key_line[OF assms] env_value_key_line[OF assms]
  by (simp add: startswith_def)

lemma check_env_lines_first:
  assumes "\<forall>l\<in>set before. \<not> valid_key_line l" "valid_key_line l"
  shows "check_env_lines (before @ l # rest) = Inr (True, Some (env_value l))"
  using assms by (induction before) (simp_all add: check_env_lines_step del: check_env_lines.simps)

lemma check_env_file_File:
  "fs s (cwd @ [''.env'']) = Some (File content) \<Longrightarrow>
     check_env_file cwd s = (check_env_lines (file_lines content), s)"
  by (simp add: check_env_file_def)

lemma str_nat_10: "str_nat 10 = ''10''" by code_simp
lemma str_nat_11: "str_nat 11 = ''11''" by code_simp
lemma str_nat_12: "str_nat 12 = ''12''" by code_simp

lemma version_ok_iff:
  "version_ok v \<longleftrightarrow>
     contains ''Python 3.10'' v \<or> contains ''Python 3.11'' v \<or> contains ''Python 3.12'' v"
  by (simp add: version_ok_def str_nat_10 str_nat_11 str_nat_12)

lemma try_candidates_step:
  "try_candidates h (c # rest) s =
     (let s1 = s\<lparr>fs := proc_effect h [c, ''--version''] (fs s),
                  spawned := spawned s @ [[c, ''--version'']]\<rparr>
      in if accepts h c then ((Some c, Some (reported_version h c)), s1)
         else try_candidates h rest s1)"
  by (cases "run_proc h [c, ''--version'']")
     (simp_all add: subprocess_run_def accepts_def reported_version_def Let_def)

lemma try_candidates_find:
  "fst (try_candidates h cs s) =
     (case find (accepts h) cs of
        None \<Rightarrow> (None, None)
      | Some c \<Rightarrow> (Some c, Some (reported_version h c)))"
proof (induction cs arbitrary: s)
  case Nil
  show ?case by simp
next
  case (Cons c cs)
  show ?case by (simp only: try_candidates_step Let_def find.simps Cons.IH split: if_splits) simp
qed

lemma try_candidates_rejected:
  assumes "\<forall>c\<in>set cs. \<not> accepts h c"
  shows "try_candidates h (cs @ rest) s =
           try_candidates h rest
             (s\<lparr>fs := child_effects h (map (\<lambda>c. [c, ''--version'']) cs) (fs s),
                spawned := spawned s @ map (\<lambda>c. [c, ''--version'']) cs\<rparr>)"
  using assms
proof (induction cs arbitrary: s)
  case Nil
  show ?case by (simp add: child_effects_def)
next
  case (Cons c cs)
  then show ?case
    by (simp add: try_candidates_step Let_def child_effects_def del: try_candidates.simps)
qed

lemma try_candidates_first_match:
  assumes "\<forall>p\<in>set before. \<not> accepts h p" "accepts h c"
  shows "fst (try_candidates h (before @ c # rest) s) = (Some c, Some (reported_version h c))"
    and "spawned (snd (try_candidates h (before @ c # rest) s))
           = spawned s @ map (\<lambda>c. [c, ''--version'']) (before @ [c])"
  using assms
  by (simp_all add: try_candidates_rejected try_candidates_step Let_def del: try_candidates.simps)

lemma try_candidates_none:
  assumes "\<forall>p\<in>set cs. \<not> accepts h p"
  shows "fst (try_candidates h cs s) = (None, None)"
    and "spawned (snd (try_candidates h cs s)) = spawned s @ map (\<lambda>c. [c, ''--version'']) cs"
  using try_candidates_rejected[OF assms, of "[]" s] by simp_all

section \<open>Facts about the steps\<close>

lemma main_eq:
  "main h s =
     (case prepare h s of
        (Inl stopped, t) \<Rightarrow> (stopped, t)
      | (Inr python_exe, t) \<Rightarrow> credential_and_verify h python_exe t)"
  by (simp add: main_def prepare_def install_steps_def credential_and_verify_def banner_def
      verification_failed_text_def print_def Let_def
      split: prod.splits sum.splits)

lemma only_childrenI:
  "spawned s' = spawned s @ cmds \<Longrightarrow> fs s' = child_effects h cmds (fs s) \<Longrightarrow> only_children h s s'"
  by (simp add: only_children_def)

lemma only_childrenE:
  assumes "only_children h s s'"
  obtains cmds where "spawned s' = spawned s @ cmds" "fs s' = child_effects h cmds (fs s)"
proof -
  from assms have "spawned s' = spawned s @ drop (length (spawned s)) (spawned s')"
    unfolding only_children_def by (metis append_take_drop_id)
  moreover from assms have "fs s' = child_effects h (drop (length (spawned s)) (spawned s')) (fs s)"
    by (simp add: only_children_def)
  ultimately show ?thesis using that by blast
qed

lemma only_children_refl: "only_children h s s"
  by (simp add: only_children_def child_effects_def)

lemma child_effects_append:
  "child_effects h (a @ b) f = child_effects h b (child_effects h a f)"
  by (simp add: child_effects_def)

lemma only_children_trans:
  assumes "only_children h s t" "only_children h t u"
  shows "only_children h s u"
proof -
  from assms(1) obtain a where a: "spawned t = spawned s @ a" "fs t = child_effects h a (fs s)"
    by (rule only_childrenE)
  from assms(2) obtain b where b: "spawned u = spawned t @ b" "fs u = child_effects h b (fs t)"
    by (rule only_childrenE)
  show ?thesis
    by (rule only_childrenI[where cmds = "a @ b"]) (simp_all add: a b child_effects_append)
qed

lemma emit_simps [simp]:
  "fs (emit h printed cmds s) = child_effects h cmds (fs s)"
  "out (emit h printed cmds s) = out s @ printed"
  "spawned (emit h printed cmds s) = spawned s @ cmds"
  by (simp_all add: emit_def)

lemma emit_emit: "emit h t2 c2 (emit h t1 c1 s) = emit h (t1 @ t2) (c1 @ c2) s"
  by (simp add: emit_def child_effects_append)

lemma emit_nil: "emit h [] [] s = s"
  by (simp add: emit_def child_effects_def)

lemma print_emit: "print t s = emit h (t @ [CHR 0x0A]) [] s"
  by (simp add: print_def emit_def child_effects_def)

lemma print_mark_emit:
  "print_mark h t s =
     (if encodes_check_mark h then None else Some (encode_error_str h),
      emit h (if encodes_check_mark h then t @ [CHR 0x0A] else []) [] s)"
  by (simp add: print_mark_def print_def emit_def child_effects_def)

lemma subprocess_run_emit: "subprocess_run h cmd s = (run_proc h cmd, emit h [] [cmd] s)"
  by (simp add: subprocess_run_def emit_def child_effects_def)

lemma obliviousI:
  assumes "\<And>s. f s = (v, emit h printed cmds s)"
  shows "oblivious h f"
  by (simp add: oblivious_def value_of_def emitted_def cmds_of_def assms blank_def)

lemma obliviousD:
  "oblivious h f \<Longrightarrow> f s = (value_of f, emit h (emitted f) (cmds_of f) s)"
  by (simp add: oblivious_def)

lemma check_call_oblivious: "oblivious h (check_call h cmd kw)"
proof (cases kw)
  case True
  show ?thesis
    by (rule obliviousI[where v = "Some (unexpected_keyword_str h)" and printed = "[]" and cmds = "[]"])
       (simp add: check_call_def True emit_nil)
next
  case False
  show ?thesis
  proof (cases "run_proc h cmd")
    case (Completed rc sout serr)
    show ?thesis
      by (rule obliviousI[where v = "if rc = 0 then None else Some (called_process_error_str h cmd rc)"
            and printed = sout and cmds = "[cmd]"])
         (simp add: check_call_def False Completed emit_def child_effects_def)
  next
    case (Raised msg sout)
    show ?thesis
      by (rule obliviousI[where v = "Some msg" and printed = sout and cmds = "[cmd]"])
         (simp add: check_call_def False Raised emit_def child_effects_def)
  qed
qed

lemmas check_call_emit = obliviousD[OF check_call_oblivious]

lemma oblivious_unfold:
  "oblivious h f \<longleftrightarrow> (\<forall>s. f s = (fst (f blank), emit h (out (snd (f blank))) (spawned (snd (f blank))) s))"
  by (simp add: oblivious_def value_of_def emitted_def cmds_of_def)

lemma blank_simps [simp]: "out blank = []" "spawned blank = []" "fs blank = Map.empty"
  by (simp_all add: blank_def)

lemma upgrade_pip_oblivious: "oblivious h (upgrade_pip h py)"
  unfolding oblivious_unfold
  by (simp add: upgrade_pip_def check_call_emit print_emit[where h = h] print_mark_emit emit_emit Let_def
      split: option.splits)

lemma is_sdk_installed_oblivious: "oblivious h (is_sdk_installed h py)"
  unfolding oblivious_unfold
  by (simp add: is_sdk_installed_def subprocess_run_emit split: proc_outcome.splits)

lemma install_sdk_oblivious: "oblivious h (install_sdk h py)"
  unfolding oblivious_unfold
  by (simp add: install_sdk_def check_call_emit print_emit[where h = h] print_mark_emit emit_emit Let_def
      split: option.splits)

lemma ensure_python_dotenv_oblivious: "oblivious h (ensure_python_dotenv h py)"
  unfolding oblivious_unfold
  by (simp add: ensure_python_dotenv_def check_call_emit subprocess_run_emit emit_emit
      split: option.splits proc_outcome.splits)

lemma test_sdk_connection_oblivious: "oblivious h (test_sdk_connection h py cwd)"
proof (cases "encodes_check_mark h")
  case True
  show ?thesis
    unfolding oblivious_unfold
    by (simp add: test_sdk_connection_def subprocess_run_emit print_emit[where h = h]
          print_mark_emit True emit_emit Let_def
        split: proc_outcome.splits)
next
  case False
  show ?thesis
    unfolding oblivious_unfold
    by (cases "run_proc h [path_str h py, ''-c'', test_script (path_str h cwd)]")
       (auto simp add: test_sdk_connection_def subprocess_run_emit print_emit[where h = h]
          print_mark_emit False emit_emit Let_def)
qed

lemma try_candidates_oblivious: "oblivious h (try_candidates h cs)"
proof (induction cs)
  case Nil
  show ?case by (rule obliviousI[where printed = "[]" and cmds = "[]"]) (simp add: emit_nil)
next
  case (Cons c cs)
  have s1: "s\<lparr>fs := proc_effect h [c, ''--version''] (fs s),
               spawned := spawned s @ [[c, ''--version'']]\<rparr> = emit h [] [[c, ''--version'']] s" for s
    by (simp add: emit_def child_effects_def)
  show ?case
  proof (cases "accepts h c")
    case True
    show ?thesis
      by (rule obliviousI[where printed = "[]" and cmds = "[[c, ''--version'']]"])
         (simp add: try_candidates_step True s1 Let_def del: try_candidates.simps)
  next
    case False
    have eq: "try_candidates h (c # cs) s =
                (value_of (try_candidates h cs),
                 emit h (emitted (try_candidates h cs))
                   ([c, ''--version''] # cmds_of (try_candidates h cs)) s)" for s
    proof -
      have "try_candidates h (c # cs) s = try_candidates h cs (emit h [] [[c, ''--version'']] s)"
        using False by (simp add: try_candidates_step s1 Let_def del: try_candidates.simps)
      also have "\<dots> = (value_of (try_candidates h cs),
                 emit h (emitted (try_candidates h cs)) (cmds_of (try_candidates h cs))
                   (emit h [] [[c, ''--version'']] s))"
        by (rule obliviousD[OF Cons.IH])
      finally show ?thesis by (simp add: emit_emit)
    qed
    show ?thesis by (rule obliviousI[OF eq])
  qed
qed

lemma find_compatible_python_oblivious: "oblivious h (find_compatible_python h)"
proof -
  have "find_compatible_python h = try_candidates h candidates"
    by (rule ext) (simp add: find_compatible_python_def)
  then show ?thesis by (simp only: try_candidates_oblivious)
qed

lemma no_python_found_oblivious: "oblivious h no_python_found"
  unfolding oblivious_unfold
  by (simp add: no_python_found_def print_emit[where h = h] emit_emit Let_def)

lemma prompt_for_api_key_oblivious: "oblivious h (prompt_for_api_key h cwd)"
  unfolding oblivious_unfold
  by (simp add: prompt_for_api_key_def print_emit[where h = h] emit_emit Let_def)

lemmas find_python_emit = obliviousD[OF find_compatible_python_oblivious]
lemmas no_python_emit = obliviousD[OF no_python_found_oblivious]

text \<open>Without an environment directory, ensure_venv is oblivious too.\<close>

lemma ensure_venv_create:
  assumes "fs s (get_venv_path h) = None"
  shows "ensure_venv h s = (value_of (ensure_venv h), emit h (emitted (ensure_venv h)) (cmds_of (ensure_venv h)) s)"
  using assms
  by (simp add: value_of_def[of "ensure_venv h"] emitted_def[of "ensure_venv h"] cmds_of_def[of "ensure_venv h"]
       ensure_venv_def find_python_emit no_python_emit[where h = h] check_call_emit print_emit[where h = h]
       print_mark_emit emit_emit Let_def
      split: option.splits prod.splits)

lemma ensure_venv_exists:
  "fs s (get_venv_path h) \<noteq> None \<Longrightarrow> ensure_venv h s = (Inr (venv_python h), s)"
  by (simp add: ensure_venv_def venv_python_def)

lemma ensure_venv_value:
  "fst (ensure_venv h s) = Inr py \<Longrightarrow> py = venv_python h"
  by (auto simp: ensure_venv_def venv_python_def no_python_found_def print_mark_def Let_def
      split: if_splits prod.splits option.splits)

lemma install_steps_oblivious: "oblivious h (install_steps h py)"
  unfolding oblivious_unfold
  by (simp add: install_steps_def obliviousD[OF upgrade_pip_oblivious]
        obliviousD[OF is_sdk_installed_oblivious] obliviousD[OF install_sdk_oblivious]
        obliviousD[OF ensure_python_dotenv_oblivious] emit_emit
      split: sum.splits)

section \<open>Facts about the provisioning routine\<close>

lemma banner_emit: "banner h s = emit h (out (banner h blank)) [] s"
  by (simp add: banner_def print_emit[where h = h] emit_emit)

lemma fs_banner [simp]: "fs (banner h s) = fs s"
  by (simp add: banner_def print_def)

lemma check_env_file_state [simp]: "snd (check_env_file cwd s) = s"
  by (simp add: check_env_file_def split: option.splits node.splits)

lemma check_env_lines_not_Inl: "check_env_lines ls \<noteq> Inl e"
  by (simp add: check_env_lines_find split: option.splits)

lemma check_env_file_stop:
  "fst (check_env_file cwd s) = Inl e \<Longrightarrow> \<exists>m. e = Uncaught m"
  by (auto simp: check_env_file_def check_env_lines_not_Inl split: option.splits node.splits)

lemma check_env_lines_no_key:
  "check_env_lines ls = Inr (False, k) \<longleftrightarrow> k = None \<and> (\<forall>l\<in>set ls. \<not> valid_key_line l)"
proof (cases "find valid_key_line ls")
  case None
  then have "\<forall>l\<in>set ls. \<not> valid_key_line l" by (simp add: find_None_iff)
  with None show ?thesis by (auto simp: check_env_lines_find)
next
  case (Some l)
  then have "l \<in> set ls" "valid_key_line l" by (auto simp: find_Some_iff)
  with Some show ?thesis by (auto simp: check_env_lines_find)
qed

lemma check_env_file_no_key:
  "fst (check_env_file cwd s) = Inr (False, k) \<longleftrightarrow>
     k = None \<and> (fs s (cwd @ [''.env'']) = None
       \<or> (\<exists>content. fs s (cwd @ [''.env'']) = Some (File content)
             \<and> (\<forall>l\<in>set (file_lines content). \<not> valid_key_line l)))"
  by (auto simp: check_env_file_def check_env_lines_no_key split: option.splits node.splits)

lemma prepare_exists:
  "fs s (get_venv_path h) \<noteq> None \<Longrightarrow> prepare h s = install_steps h (venv_python h) (banner h s)"
  by (simp add: prepare_def ensure_venv_exists)

lemma prepare_create:
  "fs s (get_venv_path h) = None \<Longrightarrow>
     prepare h s =
       (case value_of (ensure_venv h) of
          Inl stopped \<Rightarrow>
            (Inl stopped, emit h (emitted (ensure_venv h)) (cmds_of (ensure_venv h)) (banner h s))
        | Inr python_exe \<Rightarrow>
            install_steps h python_exe
              (emit h (emitted (ensure_venv h)) (cmds_of (ensure_venv h)) (banner h s)))"
  by (simp add: prepare_def ensure_venv_create split: sum.splits)

lemma install_steps_value: "fst (install_steps h py s) = Inr py' \<Longrightarrow> py' = py"
  by (auto simp: install_steps_def split: prod.splits sum.splits if_splits)

lemma install_steps_stop: "fst (install_steps h py s) = Inl e \<Longrightarrow> e = SystemExit 1"
  by (auto simp: install_steps_def install_sdk_def print_mark_def Let_def
      split: prod.splits sum.splits if_splits option.splits)

text \<open>The one exception that leaves steps 1 to 4 uncaught is the failure to print the
  line that reports the interpreter found.\<close>

lemma ensure_venv_stop:
  "fst (ensure_venv h s) = Inl e \<Longrightarrow>
     e = SystemExit 1 \<or> (\<not> encodes_check_mark h \<and> e = Uncaught (encode_error_str h))"
  by (auto simp: ensure_venv_def no_python_found_def print_mark_def Let_def
      split: if_splits prod.splits option.splits)

lemma prepare_value: "fst (prepare h s) = Inr py \<Longrightarrow> py = venv_python h"
proof -
  assume r: "fst (prepare h s) = Inr py"
  obtain v s4 where e: "ensure_venv h (banner h s) = (v, s4)" by (metis prod.exhaust)
  show ?thesis
  proof (cases v)
    case (Inl stopped)
    with e r show ?thesis by (simp add: prepare_def)
  next
    case (Inr exe)
    with e have "exe = venv_python h" using ensure_venv_value[of h "banner h s" exe] by simp
    moreover from e Inr r have "fst (install_steps h exe s4) = Inr py" by (simp add: prepare_def)
    ultimately show ?thesis using install_steps_value by blast
  qed
qed

lemma prepare_stop:
  "fst (prepare h s) = Inl e \<Longrightarrow>
     e = SystemExit 1 \<or> (\<not> encodes_check_mark h \<and> e = Uncaught (encode_error_str h))"
proof -
  assume r: "fst (prepare h s) = Inl e"
  obtain v s4 where ev: "ensure_venv h (banner h s) = (v, s4)" by (metis prod.exhaust)
  show ?thesis
  proof (cases v)
    case (Inl stopped)
    with ev r have "fst (ensure_venv h (banner h s)) = Inl e" by (simp add: prepare_def)
    then show ?thesis by (rule ensure_venv_stop)
  next
    case (Inr exe)
    with ev r have "fst (install_steps h exe s4) = Inl e" by (simp add: prepare_def)
    then have "e = SystemExit 1" by (rule install_steps_stop)
    then show ?thesis ..
  qed
qed

lemma prepare_stop_status: "fst (prepare h s) = Inl e \<Longrightarrow> exit_status e = 1"
  using prepare_stop[of h s e] by auto

text \<open>What prepare returns and emits depends on the state only through the presence of
  the environment directory.\<close>

lemma prepare_emit:
  assumes "(fs t (get_venv_path h) = None) = (fs s (get_venv_path h) = None)"
  shows "\<exists>v printed cmds. prepare h s = (v, emit h printed cmds s)
                          \<and> prepare h t = (v, emit h printed cmds t)"
proof (cases "fs s (get_venv_path h) = None")
  case False
  with assms have "fs t (get_venv_path h) \<noteq> None" by simp
  with False have
    "prepare h s = (value_of (install_steps h (venv_python h)),
       emit h (out (banner h blank) @ emitted (install_steps h (venv_python h)))
         (cmds_of (install_steps h (venv_python h))) s)"
    "prepare h t = (value_of (install_steps h (venv_python h)),
       emit h (out (banner h blank) @ emitted (install_steps h (venv_python h)))
         (cmds_of (install_steps h (venv_python h))) t)"
    by (simp_all add: prepare_exists obliviousD[OF install_steps_oblivious] emit_emit
        banner_emit[of h s] banner_emit[of h t])
  then show ?thesis by blast
next
  case True
  with assms have t: "fs t (get_venv_path h) = None" by simp
  show ?thesis
  proof (cases "value_of (ensure_venv h)")
    case (Inl e)
    with True t have
      "prepare h s = (Inl e, emit h (out (banner h blank) @ emitted (ensure_venv h))
                               (cmds_of (ensure_venv h)) s)"
      "prepare h t = (Inl e, emit h (out (banner h blank) @ emitted (ensure_venv h))
                               (cmds_of (ensure_venv h)) t)"
      by (simp_all add: prepare_create emit_emit banner_emit[of h s] banner_emit[of h t])
    then show ?thesis by blast
  next
    case (Inr py)
    with True t have
      "prepare h s = (value_of (install_steps h py),
         emit h ((out (banner h blank) @ emitted (ensure_venv h)) @ emitted (install_steps h py))
           (cmds_of (ensure_venv h) @ cmds_of (install_steps h py)) s)"
      "prepare h t = (value_of (install_steps h py),
         emit h ((out (banner h blank) @ emitted (ensure_venv h)) @ emitted (install_steps h py))
           (cmds_of (ensure_venv h) @ cmds_of (install_steps h py)) t)"
      by (simp_all add: prepare_create obliviousD[OF install_steps_oblivious] emit_emit
          banner_emit[of h s] banner_emit[of h t])
    then show ?thesis by blast
  qed
qed

lemma prepare_emit1: "\<exists>v printed cmds. prepare h s = (v, emit h printed cmds s)"
  using prepare_emit[of s h s] by auto

lemma prompt_for_api_key_value [simp]: "fst (prompt_for_api_key h cwd s) = SystemExit 2"
  by (simp add: prompt_for_api_key_def Let_def)

lemma prompt_for_api_key_frame [simp]:
  "fs (snd (prompt_for_api_key h cwd s)) = fs s"
  "spawned (snd (prompt_for_api_key h cwd s)) = spawned s"
  by (simp_all add: prompt_for_api_key_def Let_def print_def)

lemma out_print: "out (print t s) = out s @ t @ [CHR 0x0A]"
  by (simp add: print_def)

lemma prompt_for_api_key_out:
  "\<exists>pre. out (snd (prompt_for_api_key h cwd s))
           = (out s @ pre) @ ''\<newline>API_KEY_REQUIRED\<newline>CWD='' @ path_str h cwd @ ''\<newline>''"
proof -
  have "\<exists>x. snd (prompt_for_api_key h cwd s)
              = print (''CWD='' @ path_str h cwd) (print ''\<newline>API_KEY_REQUIRED'' x)
            \<and> (\<exists>mid. out x = out s @ mid)"
    unfolding prompt_for_api_key_def Let_def snd_conv
    apply (rule exI)
    apply (rule conjI)
     apply (rule refl)
    apply (simp add: print_def)
    done
  then obtain x mid where
    x: "snd (prompt_for_api_key h cwd s)
          = print (''CWD='' @ path_str h cwd) (print ''\<newline>API_KEY_REQUIRED'' x)"
    and mid: "out x = out s @ mid"
    by blast
  have "out (snd (prompt_for_api_key h cwd s))
          = (out s @ mid) @ ''\<newline>API_KEY_REQUIRED\<newline>CWD='' @ path_str h cwd @ ''\<newline>''"
    by (simp add: x out_print mid)
  then show ?thesis by - (rule exI, assumption)
qed

lemma success_text_eq:
  "success_text h
     = ''\<newline>VENV_PYTHON='' @ path_str h (get_venv_python h (get_venv_path h))
       @ ''\<newline>CWD='' @ path_str h (get_user_cwd h) @ ''\<newline>''"
  by (simp add: success_text_def venv_python_def)

lemma credential_and_verify_cases:
  fixes h py t
  defines "cwd \<equiv> get_user_cwd h"
  defines "u \<equiv> snd (test_sdk_connection h py cwd t)"
  obtains
    (crash) m where "fst (check_env_file cwd t) = Inl (Uncaught m)"
      "credential_and_verify h py t = (Uncaught m, t)"
  | (need) "fst (check_env_file cwd t) = Inr (False, None)"
      "credential_and_verify h py t = prompt_for_api_key h cwd t"
  | (failed) k where "fst (check_env_file cwd t) = Inr (True, k)"
      "\<not> fst (test_sdk_connection h py cwd t)"
      "credential_and_verify h py t = (SystemExit 1, u\<lparr>out := out u @ verification_failed_text h\<rparr>)"
  | (verified) k where "fst (check_env_file cwd t) = Inr (True, k)"
      "fst (test_sdk_connection h py cwd t)"
      "credential_and_verify h py t =
         (SystemExit 0,
          u\<lparr>out := out u @ ''\<newline>VENV_PYTHON='' @ path_str h py
                  @ ''\<newline>CWD='' @ path_str h cwd @ ''\<newline>''\<rparr>)"
proof -
  obtain r where r: "check_env_file cwd t = (r, t)"
    by (metis check_env_file_state prod.collapse)
  show ?thesis
  proof (cases r)
    case (Inl e)
    then obtain m where "e = Uncaught m" using check_env_file_stop[of cwd t e] r by auto
    with Inl r show ?thesis
      by (intro crash[of m]) (simp_all add: credential_and_verify_def cwd_def)
  next
    case (Inr p)
    obtain has_key k where p: "p = (has_key, k)" by (cases p)
    show ?thesis
    proof (cases has_key)
      case False
      with Inr p r have "k = None" using check_env_file_no_key[of cwd t k] by simp
      with False Inr p r show ?thesis
        by (intro need) (simp_all add: credential_and_verify_def cwd_def)
    next
      case True
      obtain c u' where c: "test_sdk_connection h py cwd t = (c, u')" by (metis prod.exhaust)
      show ?thesis
      proof (cases c)
        case False
        with True Inr p r c show ?thesis
          by (intro failed[of k]) (simp_all add: credential_and_verify_def cwd_def u_def)
      next
        case connected: True
        with True Inr p r c show ?thesis
          by (intro verified[of k]) (simp_all add: credential_and_verify_def cwd_def u_def)
      qed
    qed
  qed
qed

lemma main_cases:
  obtains
    (fatal) e where "fst (prepare h s) = Inl e" "exit_status e = 1"
      "main h s = (e, snd (prepare h s))"
  | (ready) t where "prepare h s = (Inr (venv_python h), t)"
      "main h s = credential_and_verify h (venv_python h) t"
proof -
  obtain v t where p: "prepare h s = (v, t)" by (metis prod.exhaust)
  show ?thesis
  proof (cases v)
    case (Inl e)
    with p have "exit_status e = 1" using prepare_stop_status[of h s e] by simp
    with Inl p show ?thesis by (intro fatal[of e]) (simp_all add: main_eq)
  next
    case (Inr py)
    with p have "py = venv_python h" using prepare_value[of h s py] by simp
    with Inr p show ?thesis by (intro ready[of t]) (simp_all add: main_eq)
  qed
qed

lemma main_outcomes:
  obtains
    (fatal) "exit_status (fst (main h s)) = 1" "fst (prepare h s) = Inl (fst (main h s))"
      "snd (main h s) = snd (prepare h s)"
  | (crash) t m where "fst (main h s) = Uncaught m" "prepare h s = (Inr (venv_python h), t)"
      "fst (check_env_file (get_user_cwd h) t) = Inl (Uncaught m)" "snd (main h s) = t"
  | (need) t where "fst (main h s) = SystemExit 2" "prepare h s = (Inr (venv_python h), t)"
      "fst (check_env_file (get_user_cwd h) t) = Inr (False, None)"
      "snd (main h s) = snd (prompt_for_api_key h (get_user_cwd h) t)"
  | (failed) t k where "fst (main h s) = SystemExit 1" "prepare h s = (Inr (venv_python h), t)"
      "fst (check_env_file (get_user_cwd h) t) = Inr (True, k)"
      "\<not> fst (test_sdk_connection h (venv_python h) (get_user_cwd h) t)"
      "snd (main h s) = (snd (test_sdk_connection h (venv_python h) (get_user_cwd h) t))
          \<lparr>out := out (snd (test_sdk_connection h (venv_python h) (get_user_cwd h) t))
                  @ verification_failed_text h\<rparr>"
  | (verified) t k where "fst (main h s) = SystemExit 0" "prepare h s = (Inr (venv_python h), t)"
      "fst (check_env_file (get_user_cwd h) t) = Inr (True, k)"
      "fst (test_sdk_connection h (venv_python h) (get_user_cwd h) t)"
      "snd (main h s) = (snd (test_sdk_connection h (venv_python h) (get_user_cwd h) t))
          \<lparr>out := out (snd (test_sdk_connection h (venv_python h) (get_user_cwd h) t))
                  @ success_text h\<rparr>"
proof (cases h s rule: main_cases)
  case (fatal e)
  then show ?thesis by (intro that(1)) simp_all
next
  case (ready t)
  show ?thesis
  proof (cases h "venv_python h" t rule: credential_and_verify_cases)
    case (crash m)
    with ready show ?thesis by (intro that(2)[of m t]) simp_all
  next
    case need
    with ready show ?thesis by (intro that(3)[of t]) simp_all
  next
    case (failed k)
    with ready show ?thesis by (intro that(4)[of t k]) simp_all
  next
    case (verified k)
    with ready show ?thesis
      by (intro that(5)[of t k]) (simp_all add: success_text_def)
  qed
qed

lemma main_status_0_iff:
  "exit_status (fst (main h s)) = 0 \<longleftrightarrow>
     (\<exists>t k. prepare h s = (Inr (venv_python h), t)
            \<and> fst (check_env_file (get_user_cwd h) t) = Inr (True, k)
            \<and> fst (test_sdk_connection h (venv_python h) (get_user_cwd h) t))"
  by (cases h s rule: main_outcomes) auto

lemma main_status_2_iff:
  "exit_status (fst (main h s)) = 2 \<longleftrightarrow>
     (\<exists>t. prepare h s = (Inr (venv_python h), t)
          \<and> fst (check_env_file (get_user_cwd h) t) = Inr (False, None))"
  by (cases h s rule: main_outcomes) auto

lemma main_status_range: "exit_status (fst (main h s)) \<in> {0, 1, 2}"
  by (cases h s rule: main_outcomes) auto

lemma main_status_2I:
  assumes "fst (prepare h s) = Inr py"
    and "fst (check_env_file (get_user_cwd h) (snd (prepare h s))) = Inr (False, k)"
  shows "exit_status (fst (main h s)) = 2"
proof -
  from assms(1) have "prepare h s = (Inr (venv_python h), snd (prepare h s))"
    using prepare_value[of h s py] by (metis prod.collapse)
  moreover from assms(2) have "k = None" by (simp add: check_env_file_no_key)
  ultimately show ?thesis using assms(2) main_status_2_iff by blast
qed


lemma test_sdk_connection_ok_iff:
  "fst (test_sdk_connection h py cwd s) \<longleftrightarrow>
     encodes_check_mark h
     \<and> child_passed (run_proc h [path_str h py, ''-c'', test_script (path_str h cwd)])"
  by (cases "run_proc h [path_str h py, ''-c'', test_script (path_str h cwd)]")
     (auto simp: test_sdk_connection_def subprocess_run_def print_mark_def Let_def)



lemma test_sdk_connection_frame:
  "spawned (snd (test_sdk_connection h py cwd s))
     = spawned s @ [[path_str h py, ''-c'', test_script (path_str h cwd)]]"
  "fs (snd (test_sdk_connection h py cwd s))
     = proc_effect h [path_str h py, ''-c'', test_script (path_str h cwd)] (fs s)"
  by (cases "run_proc h [path_str h py, ''-c'', test_script (path_str h cwd)]";
      simp add: test_sdk_connection_def subprocess_run_def print_mark_def Let_def print_def)+

lemma check_call_ok_iff: "fst (check_call h cmd False s) = None \<longleftrightarrow> completes_ok h cmd"
  by (cases "run_proc h cmd") (simp_all add: check_call_def completes_ok_def Let_def)

lemma is_sdk_installed_value:
  "fst (is_sdk_installed h py s) = completes_ok h [path_str h py, ''-c'', ''import carver_feeds'']"
  by (cases "run_proc h [path_str h py, ''-c'', ''import carver_feeds'']")
     (simp_all add: is_sdk_installed_def subprocess_run_def completes_ok_def)

lemma install_sdk_value:
  "fst (install_sdk h py s) =
     (if completes_ok h [path_str h py, ''-m'', ''pip'', ''install'', ''carver-feeds-sdk'']
         \<and> encodes_check_mark h
      then Inr True else Inl (SystemExit 1))"
proof -
  let ?s1 = "print ''Installing carver-feeds-sdk...'' s"
  let ?cmd = "[path_str h py, ''-m'', ''pip'', ''install'', ''carver-feeds-sdk'']"
  obtain r s2 where c: "check_call h ?cmd False ?s1 = (r, s2)" by (metis prod.exhaust)
  then have "r = None \<longleftrightarrow> completes_ok h ?cmd"
    using check_call_ok_iff[of h ?cmd ?s1] by simp
  with c show ?thesis by (cases r) (simp_all add: install_sdk_def print_mark_def Let_def)
qed

lemma upgrade_pip_result:
  "fst (upgrade_pip h py s) = False"
  "out (snd (upgrade_pip h py s))
     = out s @ ''Upgrading pip...\<newline>'' @ ''WARNING: Could not upgrade pip: ''
       @ unexpected_keyword_str h @ ''\<newline>''"
  "spawned (snd (upgrade_pip h py s)) = spawned s"
  "fs (snd (upgrade_pip h py s)) = fs s"
  by (simp_all add: upgrade_pip_def check_call_def print_def Let_def)

lemma ensure_python_dotenv_out:
  "out (snd (ensure_python_dotenv h py s)) = out s
   \<or> out (snd (ensure_python_dotenv h py s))
       = out s @ child_stdout (run_proc h [path_str h py, ''-m'', ''pip'', ''install'', ''-q'',
                                            ''python-dotenv''])"
  by (cases "run_proc h [path_str h py, ''-c'', ''import dotenv'']";
      cases "run_proc h [path_str h py, ''-m'', ''pip'', ''install'', ''-q'', ''python-dotenv'']")
     (simp_all add: ensure_python_dotenv_def subprocess_run_def check_call_def Let_def)

lemma install_steps_value_eq:
  "fst (install_steps h py s) =
     (if completes_ok h [path_str h py, ''-c'', ''import carver_feeds'']
         \<or> completes_ok h [path_str h py, ''-m'', ''pip'', ''install'', ''carver-feeds-sdk'']
           \<and> encodes_check_mark h
      then Inr py else Inl (SystemExit 1))"
proof -
  obtain b s5 where u: "upgrade_pip h py s = (b, s5)" by (metis prod.exhaust)
  obtain i s6 where p: "is_sdk_installed h py s5 = (i, s6)" by (metis prod.exhaust)
  obtain r s7 where n: "install_sdk h py s6 = (r, s7)" by (metis prod.exhaust)
  from p have i: "i = completes_ok h [path_str h py, ''-c'', ''import carver_feeds'']"
    using is_sdk_installed_value[of h py s5] by simp
  from n have r: "r = (if completes_ok h [path_str h py, ''-m'', ''pip'', ''install'', ''carver-feeds-sdk'']
         \<and> encodes_check_mark h
      then Inr True else Inl (SystemExit 1))"
    using install_sdk_value[of h py s6] by simp
  show ?thesis
    using u p n i r by (simp add: install_steps_def split: prod.splits)
qed

lemma candidates_nonempty: "c \<in> set candidates \<Longrightarrow> c \<noteq> []"
  by (auto simp: candidates_def)

lemma ensure_venv_create_value:
  assumes "fs s (get_venv_path h) = None"
  shows "fst (ensure_venv h s) =
           (case find (accepts h) candidates of
              None \<Rightarrow> Inl (SystemExit 1)
            | Some c \<Rightarrow>
                if \<not> encodes_check_mark h then Inl (Uncaught (encode_error_str h))
                else if completes_ok h [c, ''-m'', ''venv'', path_str h (get_venv_path h)]
                then Inr (venv_python h) else Inl (SystemExit 1))"
proof -
  let ?s1 = "print ''Creating virtual environment...'' s"
  obtain pe ver s2 where f: "find_compatible_python h ?s1 = ((pe, ver), s2)"
    by (metis prod.exhaust)
  then have v: "(pe, ver) = (case find (accepts h) candidates of
        None \<Rightarrow> (None, None)
      | Some c \<Rightarrow> (Some c, Some (reported_version h c)))"
    using try_candidates_find[of h candidates ?s1] by (simp add: find_compatible_python_def)
  show ?thesis
  proof (cases "find (accepts h) candidates")
    case None
    with v have "pe = None" by simp
    with assms f None show ?thesis
      by (simp add: ensure_venv_def Let_def no_python_found_def)
  next
    case (Some c)
    then have "c \<in> set candidates" by (auto simp: find_Some_iff)
    then have ne: "c \<noteq> []" by (rule candidates_nonempty)
    from v Some have pe: "pe = Some c" by simp
    let ?s3 = "print (check_mark @ '' Found compatible Python: '' @ format_opt ver) s2"
    let ?cmd = "[c, ''-m'', ''venv'', path_str h (get_venv_path h)]"
    obtain r s4 where cc: "check_call h ?cmd False ?s3 = (r, s4)" by (metis prod.exhaust)
    then have "r = None \<longleftrightarrow> completes_ok h ?cmd"
      using check_call_ok_iff[of h ?cmd ?s3] by simp
    with assms f pe ne cc Some show ?thesis
      by (cases r) (simp_all add: ensure_venv_def print_mark_def Let_def venv_python_def)
  qed
qed

lemma prepare_ready_iff:
  "(\<exists>t. prepare h s = (Inr (venv_python h), t)) \<longleftrightarrow>
     fst (ensure_venv h (banner h s)) = Inr (venv_python h)
     \<and> (completes_ok h (sdk_probe_cmd h)
        \<or> completes_ok h (sdk_install_cmd h) \<and> encodes_check_mark h)"
proof -
  obtain v s4 where e: "ensure_venv h (banner h s) = (v, s4)" by (metis prod.exhaust)
  show ?thesis
  proof (cases v)
    case (Inl stopped)
    with e show ?thesis by (simp add: prepare_def)
  next
    case (Inr exe)
    with e have exe: "exe = venv_python h" using ensure_venv_value[of h "banner h s" exe] by simp
    have "prepare h s = install_steps h (venv_python h) s4"
      using e Inr exe by (simp add: prepare_def)
    moreover have "(\<exists>t. install_steps h (venv_python h) s4 = (Inr (venv_python h), t))
        \<longleftrightarrow> fst (install_steps h (venv_python h) s4) = Inr (venv_python h)"
      by (metis fst_conv prod.collapse)
    ultimately show ?thesis
      using e Inr exe
      by (simp add: install_steps_value_eq sdk_probe_cmd_def sdk_install_cmd_def)
  qed
qed

lemma spawned_banner [simp]: "spawned (banner h s) = spawned s"
  by (simp add: banner_def print_def)

lemma is_sdk_installed_spawned:
  "spawned (snd (is_sdk_installed h py s))
     = spawned s @ [[path_str h py, ''-c'', ''import carver_feeds'']]"
  by (cases "run_proc h [path_str h py, ''-c'', ''import carver_feeds'']")
     (simp_all add: is_sdk_installed_def subprocess_run_def)

text \<open>The install that follows a helper probe: only after a probe that completed with a
  return code other than 0.\<close>

lemma ensure_python_dotenv_spawned:
  "spawned (snd (ensure_python_dotenv h py s))
     = spawned s @ [[path_str h py, ''-c'', ''import dotenv'']]
       @ (case run_proc h [path_str h py, ''-c'', ''import dotenv''] of
            Completed rc sout serr \<Rightarrow>
              if rc = 0 then []
              else [[path_str h py, ''-m'', ''pip'', ''install'', ''-q'', ''python-dotenv'']]
          | Raised msg sout \<Rightarrow> [])"
  by (cases "run_proc h [path_str h py, ''-c'', ''import dotenv'']";
      cases "run_proc h [path_str h py, ''-m'', ''pip'', ''install'', ''-q'', ''python-dotenv'']")
     (simp_all add: ensure_python_dotenv_def subprocess_run_def check_call_def Let_def)

lemma install_steps_spawned_installed:
  assumes "completes_ok h [path_str h py, ''-c'', ''import carver_feeds'']"
  shows "spawned (snd (install_steps h py s))
     = spawned s @ [[path_str h py, ''-c'', ''import carver_feeds''],
                    [path_str h py, ''-c'', ''import dotenv'']]
       @ (case run_proc h [path_str h py, ''-c'', ''import dotenv''] of
            Completed rc sout serr \<Rightarrow>
              if rc = 0 then []
              else [[path_str h py, ''-m'', ''pip'', ''install'', ''-q'', ''python-dotenv'']]
          | Raised msg sout \<Rightarrow> [])"
proof -
  obtain b s5 where u: "upgrade_pip h py s = (b, s5)" by (metis prod.exhaust)
  obtain i s6 where p: "is_sdk_installed h py s5 = (i, s6)" by (metis prod.exhaust)
  from u have s5: "spawned s5 = spawned s" using upgrade_pip_result(3)[of h py s] by simp
  from p have i: "i" using is_sdk_installed_value[of h py s5] assms by simp
  from p have s6: "spawned s6 = spawned s5 @ [[path_str h py, ''-c'', ''import carver_feeds'']]"
    using is_sdk_installed_spawned[of h py s5] by simp
  have "snd (install_steps h py s) = snd (ensure_python_dotenv h py s6)"
    using u p i by (simp add: install_steps_def split: prod.splits)
  then show ?thesis
    by (simp add: ensure_python_dotenv_spawned s6 s5)
qed

lemma main_spawned:
  "spawned (snd (main h s)) = spawned (snd (prepare h s))
   \<or> spawned (snd (main h s)) = spawned (snd (prepare h s)) @ [verify_cmd h]"
  by (cases h s rule: main_outcomes)
     (simp_all add: test_sdk_connection_frame verify_cmd_def)

lemma main_spawned_with_key:
  assumes "fst (prepare h s) = Inr py"
    and "fst (check_env_file (get_user_cwd h) (snd (prepare h s))) = Inr (True, k)"
  shows "spawned (snd (main h s)) = spawned (snd (prepare h s)) @ [verify_cmd h]"
  using assms
  by (cases h s rule: main_outcomes)
     (simp_all add: test_sdk_connection_frame verify_cmd_def)

lemma prepare_spawned_installed:
  assumes "fs s (get_venv_path h) \<noteq> None" "completes_ok h (sdk_probe_cmd h)"
  shows "spawned (snd (prepare h s))
           = spawned s @ [sdk_probe_cmd h, dotenv_probe_cmd h]
             @ (case run_proc h (dotenv_probe_cmd h) of
                  Completed rc sout serr \<Rightarrow> if rc = 0 then [] else [dotenv_install_cmd h]
                | Raised msg sout \<Rightarrow> [])"
  using assms install_steps_spawned_installed[of h "venv_python h" "banner h s"]
  unfolding sdk_probe_cmd_def dotenv_probe_cmd_def dotenv_install_cmd_def
  by (simp add: prepare_exists)

lemma only_children_emit: "only_children h s (emit h printed cmds s)"
  by (rule only_childrenI[where cmds = cmds]) simp_all

lemma only_children_prepare: "only_children h s (snd (prepare h s))"
  using prepare_emit1[of h s] only_children_emit by auto

lemma only_children_test:
  "only_children h s (snd (test_sdk_connection h py cwd s))"
  by (rule only_childrenI[where cmds = "[[path_str h py, ''-c'', test_script (path_str h cwd)]]"])
     (simp_all add: test_sdk_connection_frame child_effects_def)

lemma only_children_same:
  "fs t = fs s \<Longrightarrow> spawned t = spawned s \<Longrightarrow> only_children h s t"
  by (rule only_childrenI[where cmds = "[]"]) (simp_all add: child_effects_def)

lemma only_children_main: "only_children h s (snd (main h s))"
proof (cases h s rule: main_outcomes)
  case fatal
  then show ?thesis using only_children_prepare[of h s] by simp
next
  case (crash t m)
  then show ?thesis using only_children_prepare[of h s] by simp
next
  case (need t)
  have "only_children h t (snd (prompt_for_api_key h (get_user_cwd h) t))"
    by (rule only_children_same) simp_all
  with need show ?thesis
    using only_children_prepare[of h s] only_children_trans by fastforce
next
  case (failed t k)
  let ?u = "snd (test_sdk_connection h (venv_python h) (get_user_cwd h) t)"
  have "only_children h ?u (snd (main h s))"
    by (rule only_children_same) (simp_all add: failed(5))
  with failed(2) show ?thesis
    using only_children_prepare[of h s] only_children_test[of h t] only_children_trans
    by (metis snd_conv)
next
  case (verified t k)
  let ?u = "snd (test_sdk_connection h (venv_python h) (get_user_cwd h) t)"
  have "only_children h ?u (snd (main h s))"
    by (rule only_children_same) (simp_all add: verified(5))
  with verified(2) show ?thesis
    using only_children_prepare[of h s] only_children_test[of h t] only_children_trans
    by (metis snd_conv)
qed

lemma child_effects_preserve:
  assumes "\<forall>cmd f. proc_effect h cmd f p = f p"
  shows "child_effects h cmds f p = f p"
  unfolding child_effects_def using assms
  by (induction cmds arbitrary: f) simp_all

lemma only_children_preserve:
  assumes "only_children h s t" "\<forall>cmd f. proc_effect h cmd f p = f p"
  shows "fs t p = fs s p"
  using assms by (simp add: only_children_def child_effects_preserve)

lemma venv_path_not_env_file: "get_venv_path h \<noteq> env_file_of h"
  by (simp add: get_venv_path_def env_file_of_def)

lemma placeholder_only_no_key:
  "check_env_lines (file_lines ''CARVER_API_KEY=your_api_key_here'') = Inr (False, None)"
  "check_env_lines (file_lines ''CARVER_API_KEY=your_api_key_here\<newline>'') = Inr (False, None)"
  by code_simp+

lemma prompt_for_api_key_emit:
  "prompt_for_api_key h cwd s
     = (SystemExit 2, s\<lparr>out := out s @ emitted (prompt_for_api_key h cwd)\<rparr>)"
proof -
  have "prompt_for_api_key h cwd s
          = (value_of (prompt_for_api_key h cwd),
             emit h (emitted (prompt_for_api_key h cwd)) (cmds_of (prompt_for_api_key h cwd)) s)"
    by (rule obliviousD[OF prompt_for_api_key_oblivious])
  moreover have "value_of (prompt_for_api_key h cwd) = SystemExit 2"
    by (simp add: value_of_def)
  moreover have "cmds_of (prompt_for_api_key h cwd) = []"
    by (simp add: cmds_of_def)
  ultimately show ?thesis by (simp add: emit_def child_effects_def)
qed

lemma no_key_prompts:
  assumes "fst (check_env_file (get_user_cwd h) t) = Inr (False, None)"
  shows "credential_and_verify h py t
           = (SystemExit 2, t\<lparr>out := out t @ emitted (prompt_for_api_key h (get_user_cwd h))\<rparr>)"
proof -
  have "check_env_file (get_user_cwd h) t = (Inr (False, None), t)"
    using assms by (metis check_env_file_state prod.collapse)
  then show ?thesis
    by (simp add: credential_and_verify_def prompt_for_api_key_emit)
qed

section \<open>Runs on the concrete host\<close>

lemma demo_placeholder_ready:
  "fst (prepare demo_host (demo_state ''CARVER_API_KEY=your_api_key_here\<newline>''))
     = Inr [''skill'', ''.venv'', ''bin'', ''python'']"
  by code_simp

lemma demo_placeholder_no_key:
  "fst (check_env_file (get_user_cwd demo_host)
          (snd (prepare demo_host (demo_state ''CARVER_API_KEY=your_api_key_here\<newline>''))))
     = Inr (False, None)"
  by code_simp

lemma demo_success:
  "exit_status (fst (main demo_host (demo_state ''CARVER_API_KEY=abc\<newline>''))) = 0"
  by code_simp

lemma failing_host_stops: "fst (prepare failing_host blank) = Inl (SystemExit 1)"
  by code_simp

lemma no_dotenv_facts:
  "fst (ensure_python_dotenv no_dotenv_host (venv_python no_dotenv_host) ready_state) = False"
  "fst (ensure_venv no_dotenv_host (banner no_dotenv_host ready_state))
     = Inr (venv_python no_dotenv_host)"
  "completes_ok no_dotenv_host (sdk_probe_cmd no_dotenv_host)"
  by code_simp+

lemma rejecting_host_facts:
  "fs ready_state (get_venv_path rejecting_host) \<noteq> None"
  "completes_ok rejecting_host (sdk_probe_cmd rejecting_host)"
  "completes_ok rejecting_host (dotenv_probe_cmd rejecting_host)"
  by code_simp+

lemma cp1252_host_facts:
  "fst (prepare cp1252_host blank) = Inl (Uncaught ''codec cannot encode character'')"
  "fst (main cp1252_host blank) = Uncaught ''codec cannot encode character''"
  "fst (main cp1252_host ready_state) = SystemExit 1"
  "child_passed (run_proc cp1252_host (verify_cmd cp1252_host))"
  "encodes_check_mark cp1252_host = False"
  "fst (check_env_file (get_user_cwd cp1252_host) (snd (prepare cp1252_host ready_state)))
     = Inr (True, Some ''abc'')"
  "fst (prepare cp1252_host ready_state) = Inr (venv_python cp1252_host)"
  "fst (install_sdk cp1252_host (venv_python cp1252_host) blank) = Inl (SystemExit 1)"
  by code_simp+

text \<open>A credential file whose key line carries a no-break space and nothing else.\<close>

lemma demo_nbsp_facts:
  "fst (prepare demo_host (demo_state (''CARVER_API_KEY='' @ [CHR 0xC2, CHR 0xA0] @ ''\<newline>'')))
     = Inr (venv_python demo_host)"
  "fst (check_env_file (get_user_cwd demo_host)
          (snd (prepare demo_host
                  (demo_state (''CARVER_API_KEY='' @ [CHR 0xC2, CHR 0xA0] @ ''\<newline>'')))))
     = Inr (False, None)"
  by code_simp+

section \<open>The claims\<close>

text \<open>
  C10. \<open>check_env_file\<close> scans the credential file line by line and returns the key of
  the first line, in file order, whose trimmed text starts with \<open>CARVER_API_KEY=\<close> and
  whose trimmed value after the first \<open>=\<close> is neither empty nor the placeholder. Lines
  with an empty or placeholder value are passed over, so a valid line after a placeholder
  line is the one returned. The value is everything after the first \<open>=\<close>, trimmed, so
  a value containing \<open>=\<close> comes back whole. Trimming is that of \<open>str.strip\<close>: it
  removes every white space character of Unicode, the no-break space among them. In the
  last part \<open>ws\<close> is any text that trimming removes entirely.
\<close>

theorem check_env_file_first_valid_line:
  assumes "fs s (cwd @ [''.env'']) = Some (File content)"
  shows "fst (check_env_file cwd s) =
           (case find valid_key_line (file_lines content) of
              None \<Rightarrow> Inr (False, None)
            | Some l \<Rightarrow> Inr (True, Some (env_value l)))
         \<and> (\<forall>before line rest.
               file_lines content = before @ line # rest
               \<and> (\<forall>l\<in>set before. \<not> valid_key_line l) \<and> valid_key_line line
               \<longrightarrow> fst (check_env_file cwd s) = Inr (True, Some (env_value line)))
         \<and> (\<forall>ws v. lstrip ws = [] \<longrightarrow>
               env_value (ws @ ''CARVER_API_KEY='' @ v) = strip v
               \<and> (valid_key_line (ws @ ''CARVER_API_KEY='' @ v)
                    \<longleftrightarrow> strip v \<noteq> [] \<and> strip v \<noteq> placeholder))"
proof (intro conjI allI impI)
  show "fst (check_env_file cwd s) =
           (case find valid_key_line (file_lines content) of
              None \<Rightarrow> Inr (False, None)
            | Some l \<Rightarrow> Inr (True, Some (env_value l)))"
    by (simp only: check_env_file_File[OF assms] check_env_lines_find fst_conv)
next
  fix before line rest
  assume "file_lines content = before @ line # rest
          \<and> (\<forall>l\<in>set before. \<not> valid_key_line l) \<and> valid_key_line line"
  then show "fst (check_env_file cwd s) = Inr (True, Some (env_value line))"
    by (simp add: check_env_file_File[OF assms] check_env_lines_first
        del: check_env_lines.simps)
next
  fix ws v
  assume ws: "lstrip ws = []"
  show "env_value (ws @ ''CARVER_API_KEY='' @ v) = strip v"
    by (rule env_value_key_line[OF ws])
  show "valid_key_line (ws @ ''CARVER_API_KEY='' @ v) \<longleftrightarrow> strip v \<noteq> [] \<and> strip v \<noteq> placeholder"
    by (rule valid_key_line_shape[OF ws])
qed

theorem check_env_file_first_valid_line_witness:
  "fs (demo_state (''CARVER_API_KEY='' @ [CHR 0xC2, CHR 0xA0] @ ''\<newline>''
                   @ [CHR 0xC2, CHR 0xA0] @ '' CARVER_API_KEY= k=1 \<newline>''))
      ([''work''] @ [''.env''])
     = Some (File (''CARVER_API_KEY='' @ [CHR 0xC2, CHR 0xA0] @ ''\<newline>''
                   @ [CHR 0xC2, CHR 0xA0] @ '' CARVER_API_KEY= k=1 \<newline>''))
   \<and> fst (check_env_file [''work'']
        (demo_state (''CARVER_API_KEY='' @ [CHR 0xC2, CHR 0xA0] @ ''\<newline>''
                     @ [CHR 0xC2, CHR 0xA0] @ '' CARVER_API_KEY= k=1 \<newline>'')))
     = Inr (True, Some ''k=1'')
   \<and> lstrip ([CHR 0xC2, CHR 0xA0] @ '' '') = []
   \<and> env_value (([CHR 0xC2, CHR 0xA0] @ '' '') @ ''CARVER_API_KEY='' @ '' k=1 \<newline>'') = ''k=1''
   \<and> valid_key_line ([] @ ''CARVER_API_KEY='' @ [CHR 0xC2, CHR 0xA0, CHR 0x0A]) = False"
proof -
  let ?c = "''CARVER_API_KEY='' @ [CHR 0xC2, CHR 0xA0] @ ''\<newline>''
            @ [CHR 0xC2, CHR 0xA0] @ '' CARVER_API_KEY= k=1 \<newline>''"
  let ?ws = "[CHR 0xC2, CHR 0xA0] @ '' ''"
  have present: "fs (demo_state ?c) ([''work''] @ [''.env'']) = Some (File ?c)"
    by (simp add: demo_state_def)
  note scan = check_env_file_first_valid_line[OF present]
  have "fst (check_env_file [''work''] (demo_state ?c)) =
           (case find valid_key_line (file_lines ?c) of
              None \<Rightarrow> Inr (False, None)
            | Some l \<Rightarrow> Inr (True, Some (env_value l)))"
    using scan by (rule conjunct1)
  also have "\<dots> = Inr (True, Some ''k=1'')"
    by code_simp
  finally have found: "fst (check_env_file [''work''] (demo_state ?c)) = Inr (True, Some ''k=1'')" .
  have ws: "lstrip ?ws = []" by code_simp
  have empty: "lstrip [] = []" by code_simp
  have v1: "strip '' k=1 \<newline>'' = ''k=1''" by code_simp
  have v2: "strip [CHR 0xC2, CHR 0xA0, CHR 0x0A] = []" by code_simp
  note shape = scan[THEN conjunct2, THEN conjunct2, rule_format]
  have "env_value (?ws @ ''CARVER_API_KEY='' @ '' k=1 \<newline>'') = strip '' k=1 \<newline>''"
    using shape[of ?ws "'' k=1 \<newline>''", OF ws] by (rule conjunct1)
  then have a: "env_value (?ws @ ''CARVER_API_KEY='' @ '' k=1 \<newline>'') = ''k=1''"
    unfolding v1 .
  have "valid_key_line ([] @ ''CARVER_API_KEY='' @ [CHR 0xC2, CHR 0xA0, CHR 0x0A])
        \<longleftrightarrow> strip [CHR 0xC2, CHR 0xA0, CHR 0x0A] \<noteq> []
            \<and> strip [CHR 0xC2, CHR 0xA0, CHR 0x0A] \<noteq> placeholder"
    using shape[of "[]" "[CHR 0xC2, CHR 0xA0, CHR 0x0A]", OF empty] by (rule conjunct2)
  then have b: "valid_key_line ([] @ ''CARVER_API_KEY='' @ [CHR 0xC2, CHR 0xA0, CHR 0x0A]) = False"
    unfolding v2 by simp
  show ?thesis using present found ws a b by (intro conjI)
qed

text \<open>
  C9. The version test of \<open>find_compatible_python\<close> is substring containment: a version
  text passes exactly when \<open>Python 3.10\<close>, \<open>Python 3.11\<close> or \<open>Python 3.12\<close> occurs
  somewhere in it. So \<open>Python 3.100.0\<close> passes, and a candidate reporting it is
  selected.
\<close>

theorem version_ok_is_substring_test:
  "(version_ok v \<longleftrightarrow>
      (\<exists>pre post. v = pre @ ''Python 3.10'' @ post \<or> v = pre @ ''Python 3.11'' @ post
                   \<or> v = pre @ ''Python 3.12'' @ post))
   \<and> version_ok ''Python 3.100.0''
   \<and> (run_proc h [c, ''--version''] = Completed 0 ''Python 3.100.0\<newline>'' serr \<longrightarrow>
        fst (try_candidates h (c # rest) s) = (Some c, Some ''Python 3.100.0''))"
proof (intro conjI impI)
  show "version_ok v \<longleftrightarrow>
      (\<exists>pre post. v = pre @ ''Python 3.10'' @ post \<or> v = pre @ ''Python 3.11'' @ post
                   \<or> v = pre @ ''Python 3.12'' @ post)"
    unfolding version_ok_iff contains_iff by blast
  show ok: "version_ok ''Python 3.100.0''"
    by code_simp
  assume run: "run_proc h [c, ''--version''] = Completed 0 ''Python 3.100.0\<newline>'' serr"
  have "strip ''Python 3.100.0\<newline>'' = ''Python 3.100.0''"
    by code_simp
  with run ok have "accepts h c" "reported_version h c = ''Python 3.100.0''"
    by (simp_all add: accepts_def reported_version_def)
  then show "fst (try_candidates h (c # rest) s) = (Some c, Some ''Python 3.100.0'')"
    by (simp add: try_candidates_step Let_def del: try_candidates.simps)
qed

theorem version_ok_is_substring_test_witness:
  "run_proc (host_with (\<lambda>cmd. Completed 0 ''Python 3.100.0\<newline>'' [])) [''python3.12'', ''--version'']
     = Completed 0 ''Python 3.100.0\<newline>'' []
   \<and> fst (find_compatible_python (host_with (\<lambda>cmd. Completed 0 ''Python 3.100.0\<newline>'' [])) blank)
     = (Some ''python3.12'', Some ''Python 3.100.0'')"
proof -
  let ?h = "host_with (\<lambda>cmd. Completed 0 ''Python 3.100.0\<newline>'' [])"
  have run: "run_proc ?h [''python3.12'', ''--version''] = Completed 0 ''Python 3.100.0\<newline>'' []"
    by (simp add: host_with_def)
  have "fst (try_candidates ?h (''python3.12'' # tl candidates) blank)
          = (Some ''python3.12'', Some ''Python 3.100.0'')"
    using version_ok_is_substring_test[of _ ?h "''python3.12''" "[]" "tl candidates" blank] run
    by blast
  moreover have "''python3.12'' # tl candidates = candidates"
    by (simp add: candidates_def)
  ultimately show ?thesis using run by (simp add: find_compatible_python_def)
qed

text \<open>
  C5. Interpreter selection is first-match, for every candidate list: the result is the
  first candidate in list order whose version query completes with return code 0 and a
  version text that passes the test, whatever the later candidates would report, and the
  later candidates are never queried. A candidate whose query raises or times out is not
  acceptable and is passed over. When no candidate is acceptable the result is
  \<open>(None, None)\<close>.
\<close>

theorem find_compatible_python_first_match:
  "fst (try_candidates h cs s) =
     (case find (accepts h) cs of
        None \<Rightarrow> (None, None)
      | Some c \<Rightarrow> (Some c, Some (reported_version h c)))
   \<and> (\<forall>before c rest.
         cs = before @ c # rest \<and> (\<forall>p\<in>set before. \<not> accepts h p) \<and> accepts h c \<longrightarrow>
           fst (try_candidates h cs s) = (Some c, Some (reported_version h c))
           \<and> spawned (snd (try_candidates h cs s))
               = spawned s @ map (\<lambda>x. [x, ''--version'']) (before @ [c]))
   \<and> ((\<forall>p\<in>set cs. \<not> accepts h p) \<longrightarrow>
         fst (try_candidates h cs s) = (None, None)
         \<and> spawned (snd (try_candidates h cs s)) = spawned s @ map (\<lambda>x. [x, ''--version'']) cs)
   \<and> (\<forall>c. accepts h c \<longleftrightarrow>
         (\<exists>sout serr. run_proc h [c, ''--version''] = Completed 0 sout serr
                       \<and> version_ok (strip sout)))
   \<and> find_compatible_python h s = try_candidates h candidates s"
proof (intro conjI allI impI)
  show "fst (try_candidates h cs s) =
     (case find (accepts h) cs of
        None \<Rightarrow> (None, None)
      | Some c \<Rightarrow> (Some c, Some (reported_version h c)))"
    by (rule try_candidates_find)
next
  fix before c rest
  assume a: "cs = before @ c # rest \<and> (\<forall>p\<in>set before. \<not> accepts h p) \<and> accepts h c"
  then show "fst (try_candidates h cs s) = (Some c, Some (reported_version h c))"
    using try_candidates_first_match(1) by blast
  from a show "spawned (snd (try_candidates h cs s))
               = spawned s @ map (\<lambda>x. [x, ''--version'']) (before @ [c])"
    using try_candidates_first_match(2) by blast
next
  assume a: "\<forall>p\<in>set cs. \<not> accepts h p"
  then show "fst (try_candidates h cs s) = (None, None)"
    by (rule try_candidates_none(1))
  from a show "spawned (snd (try_candidates h cs s)) = spawned s @ map (\<lambda>x. [x, ''--version'']) cs"
    by (rule try_candidates_none(2))
next
  fix c
  show "accepts h c \<longleftrightarrow>
         (\<exists>sout serr. run_proc h [c, ''--version''] = Completed 0 sout serr
                       \<and> version_ok (strip sout))"
    by (cases "run_proc h [c, ''--version'']") (auto simp: accepts_def)
next
  show "find_compatible_python h s = try_candidates h candidates s"
    by (simp add: find_compatible_python_def)
qed

theorem find_compatible_python_first_match_witness:
  "fst (find_compatible_python demo_host blank) = (Some ''python3.11'', Some ''Python 3.11.4'')
   \<and> spawned (snd (find_compatible_python demo_host blank))
       = [[''python3.12'', ''--version''], [''python3.11'', ''--version'']]
   \<and> accepts demo_host ''python3.10''"
proof -
  have split: "candidates = [''python3.12''] @ ''python3.11'' # drop 2 candidates"
    by (simp add: candidates_def)
  have rejected: "\<forall>p\<in>set [''python3.12'']. \<not> accepts demo_host p"
    by code_simp
  have accepted: "accepts demo_host ''python3.11''" "accepts demo_host ''python3.10''"
    by code_simp+
  have version: "reported_version demo_host ''python3.11'' = ''Python 3.11.4''"
    by code_simp
  have "fst (try_candidates demo_host candidates blank)
          = (Some ''python3.11'', Some (reported_version demo_host ''python3.11''))
        \<and> spawned (snd (try_candidates demo_host candidates blank))
          = spawned blank @ map (\<lambda>x. [x, ''--version'']) ([''python3.12''] @ [''python3.11''])"
    using find_compatible_python_first_match[of demo_host candidates blank]
      split rejected accepted(1) by blast
  then show ?thesis
    using accepted(2) version by (simp add: find_compatible_python_def)
qed

text \<open>
  C3. The structured output holds on both terminal paths. When \<open>main\<close> ends with
  status 0, standard output ends with a line \<open>VENV_PYTHON=\<close> carrying the interpreter
  of the environment and a line \<open>CWD=\<close> carrying the working directory. When it ends
  with status 2, standard output ends with the bare line \<open>API_KEY_REQUIRED\<close> and a
  line \<open>CWD=\<close> carrying the working directory; \<open>prompt_for_api_key\<close> prints these
  two lines last and exits with 2.
\<close>

theorem stdout_contract:
  "(exit_status (fst (main h s)) = 0 \<longrightarrow>
      (\<exists>pre. out (snd (main h s))
         = pre @ ''\<newline>VENV_PYTHON='' @ path_str h (get_venv_python h (get_venv_path h))
               @ ''\<newline>CWD='' @ path_str h (get_user_cwd h) @ ''\<newline>''))
   \<and> (exit_status (fst (main h s)) = 2 \<longrightarrow>
      (\<exists>pre. out (snd (main h s))
         = pre @ ''\<newline>API_KEY_REQUIRED\<newline>CWD='' @ path_str h (get_user_cwd h) @ ''\<newline>''))
   \<and> fst (prompt_for_api_key h cwd s) = SystemExit 2
   \<and> (\<exists>pre. out (snd (prompt_for_api_key h cwd s))
         = (out s @ pre) @ ''\<newline>API_KEY_REQUIRED\<newline>CWD='' @ path_str h cwd @ ''\<newline>'')"
proof (intro conjI impI)
  assume zero: "exit_status (fst (main h s)) = 0"
  show "\<exists>pre. out (snd (main h s))
         = pre @ ''\<newline>VENV_PYTHON='' @ path_str h (get_venv_python h (get_venv_path h))
               @ ''\<newline>CWD='' @ path_str h (get_user_cwd h) @ ''\<newline>''"
  proof (cases h s rule: main_outcomes)
    case fatal
    with zero have False by simp
    then show ?thesis ..
  next
    case (crash t m)
    with zero have False by simp
    then show ?thesis ..
  next
    case (need t)
    with zero have False by simp
    then show ?thesis ..
  next
    case (failed t k)
    with zero have False by simp
    then show ?thesis ..
  next
    case (verified t k)
    let ?u = "snd (test_sdk_connection h (venv_python h) (get_user_cwd h) t)"
    have "out (snd (main h s)) = out ?u @ success_text h"
      by (simp add: verified(5))
    then have "out (snd (main h s))
         = out ?u @ ''\<newline>VENV_PYTHON='' @ path_str h (get_venv_python h (get_venv_path h))
               @ ''\<newline>CWD='' @ path_str h (get_user_cwd h) @ ''\<newline>''"
      unfolding success_text_eq .
    then show ?thesis by - (rule exI, assumption)
  qed
next
  assume two: "exit_status (fst (main h s)) = 2"
  show "\<exists>pre. out (snd (main h s))
         = pre @ ''\<newline>API_KEY_REQUIRED\<newline>CWD='' @ path_str h (get_user_cwd h) @ ''\<newline>''"
  proof (cases h s rule: main_outcomes)
    case fatal
    with two have False by simp
    then show ?thesis ..
  next
    case (crash t m)
    with two have False by simp
    then show ?thesis ..
  next
    case (need t)
    obtain pre where "out (snd (prompt_for_api_key h (get_user_cwd h) t))
           = (out t @ pre) @ ''\<newline>API_KEY_REQUIRED\<newline>CWD='' @ path_str h (get_user_cwd h) @ ''\<newline>''"
      using prompt_for_api_key_out by blast
    then have "out (snd (main h s))
           = (out t @ pre) @ ''\<newline>API_KEY_REQUIRED\<newline>CWD='' @ path_str h (get_user_cwd h) @ ''\<newline>''"
      unfolding need(4) .
    then show ?thesis by - (rule exI, assumption)
  next
    case (failed t k)
    with two have False by simp
    then show ?thesis ..
  next
    case (verified t k)
    with two have False by simp
    then show ?thesis ..
  qed
next
  show "fst (prompt_for_api_key h cwd s) = SystemExit 2" by simp
next
  show "\<exists>pre. out (snd (prompt_for_api_key h cwd s))
         = (out s @ pre) @ ''\<newline>API_KEY_REQUIRED\<newline>CWD='' @ path_str h cwd @ ''\<newline>''"
    by (rule prompt_for_api_key_out)
qed

theorem stdout_contract_witness:
  "exit_status (fst (main demo_host (demo_state ''CARVER_API_KEY=abc\<newline>''))) = 0
   \<and> (\<exists>pre. out (snd (main demo_host (demo_state ''CARVER_API_KEY=abc\<newline>'')))
         = pre @ ''\<newline>VENV_PYTHON=/skill/.venv/bin/python\<newline>CWD=/work\<newline>'')
   \<and> exit_status (fst (main demo_host (demo_state ''CARVER_API_KEY=your_api_key_here\<newline>''))) = 2
   \<and> (\<exists>pre. out (snd (main demo_host (demo_state ''CARVER_API_KEY=your_api_key_here\<newline>'')))
         = pre @ ''\<newline>API_KEY_REQUIRED\<newline>CWD=/work\<newline>'')"
proof -
  let ?ok = "demo_state ''CARVER_API_KEY=abc\<newline>''"
  let ?ph = "demo_state ''CARVER_API_KEY=your_api_key_here\<newline>''"
  have zero: "exit_status (fst (main demo_host ?ok)) = 0"
    by (rule demo_success)
  have two: "exit_status (fst (main demo_host ?ph)) = 2"
    by (rule main_status_2I[OF demo_placeholder_ready demo_placeholder_no_key])
  have success:
    "''\<newline>VENV_PYTHON='' @ path_str demo_host (get_venv_python demo_host (get_venv_path demo_host))
       @ ''\<newline>CWD='' @ path_str demo_host (get_user_cwd demo_host) @ ''\<newline>''
     = ''\<newline>VENV_PYTHON=/skill/.venv/bin/python\<newline>CWD=/work\<newline>''"
    by code_simp
  have need:
    "''\<newline>API_KEY_REQUIRED\<newline>CWD='' @ path_str demo_host (get_user_cwd demo_host) @ ''\<newline>''
     = ''\<newline>API_KEY_REQUIRED\<newline>CWD=/work\<newline>''"
    by code_simp
  note contract_ok = stdout_contract[of demo_host ?ok]
  note contract_ph = stdout_contract[of demo_host ?ph]
  have a: "\<exists>pre. out (snd (main demo_host ?ok))
         = pre @ ''\<newline>VENV_PYTHON=/skill/.venv/bin/python\<newline>CWD=/work\<newline>''"
    using contract_ok[THEN conjunct1, THEN mp, OF zero] unfolding success .
  have b: "\<exists>pre. out (snd (main demo_host ?ph))
         = pre @ ''\<newline>API_KEY_REQUIRED\<newline>CWD=/work\<newline>''"
    using contract_ph[THEN conjunct2, THEN conjunct1, THEN mp, OF two] unfolding need .
  show ?thesis using zero a two b by (intro conjI)
qed

text \<open>
  C1. \<open>main\<close> ends in one of three ways. The exit status is 0, 1 or 2. It is 0 exactly
  when steps 1 to 4 succeed, the credential file holds a valid key and the verification
  succeeds; the verification succeeds only when its child passed and the confirmation line
  could be printed. It is 2 exactly when steps 1 to 4 succeed and \<open>check_env_file\<close>
  finds no valid key, which happens only when the credential file is absent or has no line
  with a value other than the empty one and the placeholder. A failure of steps 1 to 4
  ends the run with status 1: by \<open>sys.exit(1)\<close> or, where standard output cannot encode
  the check mark, by the exception of the print that reports the interpreter found, which
  nothing catches. A failed verification ends with \<open>sys.exit(1)\<close>. The status
  \<open>prompt_for_api_key\<close> exits with is neither 0 nor 1.
\<close>

theorem main_exit_status:
  "exit_status (fst (main h s)) \<in> {0, 1, 2}
   \<and> (exit_status (fst (main h s)) = 0 \<longleftrightarrow>
        (\<exists>t k. prepare h s = (Inr (venv_python h), t)
               \<and> fst (check_env_file (get_user_cwd h) t) = Inr (True, k)
               \<and> fst (test_sdk_connection h (venv_python h) (get_user_cwd h) t)))
   \<and> (exit_status (fst (main h s)) = 0 \<longrightarrow>
        encodes_check_mark h \<and> child_passed (run_proc h (verify_cmd h)))
   \<and> (exit_status (fst (main h s)) = 2 \<longleftrightarrow>
        (\<exists>t. prepare h s = (Inr (venv_python h), t)
             \<and> fst (check_env_file (get_user_cwd h) t) = Inr (False, None)))
   \<and> (exit_status (fst (main h s)) = 2 \<longrightarrow>
        fs (snd (prepare h s)) (env_file_of h) = None
        \<or> (\<exists>content. fs (snd (prepare h s)) (env_file_of h) = Some (File content)
               \<and> (\<forall>l\<in>set (file_lines content). \<not> valid_key_line l)))
   \<and> (\<forall>e. fst (prepare h s) = Inl e \<longrightarrow>
          fst (main h s) = e \<and> exit_status (fst (main h s)) = 1
          \<and> (e = SystemExit 1
              \<or> (\<not> encodes_check_mark h \<and> e = Uncaught (encode_error_str h))))
   \<and> ((\<exists>t k. prepare h s = (Inr (venv_python h), t)
               \<and> fst (check_env_file (get_user_cwd h) t) = Inr (True, k)
               \<and> \<not> fst (test_sdk_connection h (venv_python h) (get_user_cwd h) t))
        \<longrightarrow> fst (main h s) = SystemExit 1)
   \<and> exit_status (fst (prompt_for_api_key h cwd s')) \<noteq> 0
   \<and> exit_status (fst (prompt_for_api_key h cwd s')) \<noteq> 1"
proof (intro conjI)
  show "exit_status (fst (main h s)) \<in> {0, 1, 2}"
    by (rule main_status_range)
  show "exit_status (fst (main h s)) = 0 \<longleftrightarrow>
        (\<exists>t k. prepare h s = (Inr (venv_python h), t)
               \<and> fst (check_env_file (get_user_cwd h) t) = Inr (True, k)
               \<and> fst (test_sdk_connection h (venv_python h) (get_user_cwd h) t))"
    by (rule main_status_0_iff)
  show "exit_status (fst (main h s)) = 0 \<longrightarrow>
        encodes_check_mark h \<and> child_passed (run_proc h (verify_cmd h))"
  proof
    assume "exit_status (fst (main h s)) = 0"
    then obtain t where "fst (test_sdk_connection h (venv_python h) (get_user_cwd h) t)"
      using main_status_0_iff by blast
    then show "encodes_check_mark h \<and> child_passed (run_proc h (verify_cmd h))"
      by (simp add: test_sdk_connection_ok_iff verify_cmd_def)
  qed
  show "exit_status (fst (main h s)) = 2 \<longleftrightarrow>
        (\<exists>t. prepare h s = (Inr (venv_python h), t)
             \<and> fst (check_env_file (get_user_cwd h) t) = Inr (False, None))"
    by (rule main_status_2_iff)
  show "exit_status (fst (main h s)) = 2 \<longrightarrow>
        fs (snd (prepare h s)) (env_file_of h) = None
        \<or> (\<exists>content. fs (snd (prepare h s)) (env_file_of h) = Some (File content)
               \<and> (\<forall>l\<in>set (file_lines content). \<not> valid_key_line l))"
  proof
    assume "exit_status (fst (main h s)) = 2"
    then obtain t where t: "prepare h s = (Inr (venv_python h), t)"
      "fst (check_env_file (get_user_cwd h) t) = Inr (False, None)"
      using main_status_2_iff by blast
    from t(2) have "fs t (get_user_cwd h @ [''.env'']) = None
        \<or> (\<exists>content. fs t (get_user_cwd h @ [''.env'']) = Some (File content)
               \<and> (\<forall>l\<in>set (file_lines content). \<not> valid_key_line l))"
      by (simp add: check_env_file_no_key)
    with t(1) show "fs (snd (prepare h s)) (env_file_of h) = None
        \<or> (\<exists>content. fs (snd (prepare h s)) (env_file_of h) = Some (File content)
               \<and> (\<forall>l\<in>set (file_lines content). \<not> valid_key_line l))"
      by (simp add: env_file_of_def)
  qed
  show "\<forall>e. fst (prepare h s) = Inl e \<longrightarrow>
          fst (main h s) = e \<and> exit_status (fst (main h s)) = 1
          \<and> (e = SystemExit 1
              \<or> (\<not> encodes_check_mark h \<and> e = Uncaught (encode_error_str h)))"
  proof (intro allI impI)
    fix e
    assume stopped: "fst (prepare h s) = Inl e"
    obtain v t where p: "prepare h s = (v, t)" by (metis prod.exhaust)
    with stopped have "v = Inl e" by simp
    with p have m: "fst (main h s) = e" by (simp add: main_eq)
    moreover have "exit_status e = 1" using stopped by (rule prepare_stop_status)
    moreover have "e = SystemExit 1
              \<or> (\<not> encodes_check_mark h \<and> e = Uncaught (encode_error_str h))"
      using stopped by (rule prepare_stop)
    ultimately show "fst (main h s) = e \<and> exit_status (fst (main h s)) = 1
          \<and> (e = SystemExit 1
              \<or> (\<not> encodes_check_mark h \<and> e = Uncaught (encode_error_str h)))"
      by simp
  qed
  show "(\<exists>t k. prepare h s = (Inr (venv_python h), t)
               \<and> fst (check_env_file (get_user_cwd h) t) = Inr (True, k)
               \<and> \<not> fst (test_sdk_connection h (venv_python h) (get_user_cwd h) t))
        \<longrightarrow> fst (main h s) = SystemExit 1"
    by (cases h s rule: main_outcomes) auto
  show "exit_status (fst (prompt_for_api_key h cwd s')) \<noteq> 0"
    and "exit_status (fst (prompt_for_api_key h cwd s')) \<noteq> 1"
    by simp_all
qed

theorem main_exit_status_witness:
  "fst (prepare failing_host blank) = Inl (SystemExit 1)
   \<and> fst (main failing_host blank) = SystemExit 1
   \<and> fst (prepare cp1252_host blank) = Inl (Uncaught ''codec cannot encode character'')
   \<and> fst (main cp1252_host blank) = Uncaught ''codec cannot encode character''
   \<and> exit_status (fst (main cp1252_host blank)) = 1
   \<and> exit_status (fst (main demo_host
          (demo_state (''CARVER_API_KEY='' @ [CHR 0xC2, CHR 0xA0] @ ''\<newline>'')))) = 2
   \<and> exit_status (fst (main demo_host (demo_state ''CARVER_API_KEY=abc\<newline>''))) = 0
   \<and> encodes_check_mark demo_host
   \<and> child_passed (run_proc demo_host (verify_cmd demo_host))
   \<and> (\<exists>t k. prepare demo_host (demo_state ''CARVER_API_KEY=abc\<newline>'')
                 = (Inr (venv_python demo_host), t)
              \<and> fst (check_env_file (get_user_cwd demo_host) t) = Inr (True, k)
              \<and> fst (test_sdk_connection demo_host (venv_python demo_host)
                        (get_user_cwd demo_host) t))"
proof -
  let ?bad = failing_host
  let ?ok = "demo_state ''CARVER_API_KEY=abc\<newline>''"
  note fatal_all = main_exit_status[of ?bad blank, THEN conjunct2, THEN conjunct2,
      THEN conjunct2, THEN conjunct2, THEN conjunct2, THEN conjunct1, rule_format]
  note legacy_all = main_exit_status[of cp1252_host blank, THEN conjunct2, THEN conjunct2,
      THEN conjunct2, THEN conjunct2, THEN conjunct2, THEN conjunct1, rule_format]
  have stopped: "fst (prepare ?bad blank) = Inl (SystemExit 1)"
    by (rule failing_host_stops)
  have fatal: "fst (main ?bad blank) = SystemExit 1"
    using fatal_all[OF stopped] by (rule conjunct1)
  have legacy: "fst (main cp1252_host blank) = Uncaught ''codec cannot encode character''"
      "exit_status (fst (main cp1252_host blank)) = 1"
    using legacy_all[OF cp1252_host_facts(1)] by simp_all
  let ?nb = "demo_state (''CARVER_API_KEY='' @ [CHR 0xC2, CHR 0xA0] @ ''\<newline>'')"
  have "prepare demo_host ?nb = (Inr (venv_python demo_host), snd (prepare demo_host ?nb))"
    using demo_nbsp_facts(1) by (simp add: prod_eq_iff)
  then have "prepare demo_host ?nb = (Inr (venv_python demo_host), snd (prepare demo_host ?nb))
      \<and> fst (check_env_file (get_user_cwd demo_host) (snd (prepare demo_host ?nb)))
          = Inr (False, None)"
    using demo_nbsp_facts(2) by (rule conjI)
  then have "\<exists>t. prepare demo_host ?nb = (Inr (venv_python demo_host), t)
      \<and> fst (check_env_file (get_user_cwd demo_host) t) = Inr (False, None)"
    by - (rule exI, assumption)
  then have no_key: "exit_status (fst (main demo_host ?nb)) = 2"
    by (rule main_exit_status[of demo_host ?nb, THEN conjunct2, THEN conjunct2,
               THEN conjunct2, THEN conjunct1, THEN iffD2])
  note ok_all = main_exit_status[of demo_host ?ok]
  have marks: "encodes_check_mark demo_host \<and> child_passed (run_proc demo_host (verify_cmd demo_host))"
    using ok_all[THEN conjunct2, THEN conjunct2, THEN conjunct1, THEN mp, OF demo_success] .
  have "\<exists>t k. prepare demo_host ?ok = (Inr (venv_python demo_host), t)
              \<and> fst (check_env_file (get_user_cwd demo_host) t) = Inr (True, k)
              \<and> fst (test_sdk_connection demo_host (venv_python demo_host)
                        (get_user_cwd demo_host) t)"
    using ok_all[THEN conjunct2, THEN conjunct1, THEN iffD1, OF demo_success] .
  with stopped fatal cp1252_host_facts(1) legacy no_key demo_success marks show ?thesis
    by (intro conjI) simp_all
qed




text \<open>
  C7. The optional steps never stop the run and the gating steps do. A failed pip upgrade
  leaves one warning line on standard output; \<open>ensure_python_dotenv\<close> prints nothing
  of its own, whatever happens. Steps 2 to 4 return the interpreter exactly when the SDK
  probe completes with return code 0, or the SDK install does and its confirmation line
  can be printed, and stop with status 1 otherwise: the outcome of the pip upgrade and of
  the helper install plays no part. Without an environment directory \<open>ensure_venv\<close>
  stops with status 1 when no candidate is acceptable or the environment cannot be built;
  where standard output cannot encode the check mark it stops before building anything,
  by the exception of the print that reports the interpreter found. Whenever steps 1 to 4
  do not return the interpreter, \<open>main\<close> ends with status 1.
\<close>

theorem optional_steps_continue_gating_steps_stop:
  "(fst (upgrade_pip h py s) = False \<longrightarrow>
      (\<exists>e. out (snd (upgrade_pip h py s))
         = out s @ ''Upgrading pip...\<newline>'' @ ''WARNING: Could not upgrade pip: '' @ e @ ''\<newline>''))
   \<and> (out (snd (ensure_python_dotenv h py s)) = out s
      \<or> out (snd (ensure_python_dotenv h py s))
          = out s @ child_stdout (run_proc h [path_str h py, ''-m'', ''pip'', ''install'', ''-q'',
                                               ''python-dotenv'']))
   \<and> fst (install_steps h py s)
       = (if completes_ok h [path_str h py, ''-c'', ''import carver_feeds'']
             \<or> completes_ok h [path_str h py, ''-m'', ''pip'', ''install'', ''carver-feeds-sdk'']
               \<and> encodes_check_mark h
          then Inr py else Inl (SystemExit 1))
   \<and> (fs s (get_venv_path h) = None \<longrightarrow>
        fst (ensure_venv h s)
          = (case find (accepts h) candidates of
               None \<Rightarrow> Inl (SystemExit 1)
             | Some c \<Rightarrow>
                 if \<not> encodes_check_mark h then Inl (Uncaught (encode_error_str h))
                 else if completes_ok h [c, ''-m'', ''venv'', path_str h (get_venv_path h)]
                 then Inr (venv_python h) else Inl (SystemExit 1)))
   \<and> ((\<exists>t. prepare h s = (Inr (venv_python h), t)) \<longleftrightarrow>
        fst (ensure_venv h (banner h s)) = Inr (venv_python h)
        \<and> (completes_ok h (sdk_probe_cmd h)
           \<or> completes_ok h (sdk_install_cmd h) \<and> encodes_check_mark h))
   \<and> ((\<forall>t. prepare h s \<noteq> (Inr (venv_python h), t)) \<longrightarrow>
        exit_status (fst (main h s)) = 1
        \<and> (fst (main h s) = SystemExit 1
            \<or> (\<not> encodes_check_mark h \<and> fst (main h s) = Uncaught (encode_error_str h))))"
proof (intro conjI impI)
  show "\<exists>e. out (snd (upgrade_pip h py s))
         = out s @ ''Upgrading pip...\<newline>'' @ ''WARNING: Could not upgrade pip: '' @ e @ ''\<newline>''"
    using upgrade_pip_result(2)[of h py s] by - (rule exI, assumption)
  show "out (snd (ensure_python_dotenv h py s)) = out s
      \<or> out (snd (ensure_python_dotenv h py s))
          = out s @ child_stdout (run_proc h [path_str h py, ''-m'', ''pip'', ''install'', ''-q'',
                                               ''python-dotenv''])"
    by (rule ensure_python_dotenv_out)
  show "fst (install_steps h py s)
       = (if completes_ok h [path_str h py, ''-c'', ''import carver_feeds'']
             \<or> completes_ok h [path_str h py, ''-m'', ''pip'', ''install'', ''carver-feeds-sdk'']
               \<and> encodes_check_mark h
          then Inr py else Inl (SystemExit 1))"
    by (rule install_steps_value_eq)
  show "(\<exists>t. prepare h s = (Inr (venv_python h), t)) \<longleftrightarrow>
        fst (ensure_venv h (banner h s)) = Inr (venv_python h)
        \<and> (completes_ok h (sdk_probe_cmd h)
           \<or> completes_ok h (sdk_install_cmd h) \<and> encodes_check_mark h)"
    by (rule prepare_ready_iff)
next
  assume "fs s (get_venv_path h) = None"
  then show "fst (ensure_venv h s)
          = (case find (accepts h) candidates of
               None \<Rightarrow> Inl (SystemExit 1)
             | Some c \<Rightarrow>
                 if \<not> encodes_check_mark h then Inl (Uncaught (encode_error_str h))
                 else if completes_ok h [c, ''-m'', ''venv'', path_str h (get_venv_path h)]
                 then Inr (venv_python h) else Inl (SystemExit 1))"
    by (rule ensure_venv_create_value)
next
  assume none: "\<forall>t. prepare h s \<noteq> (Inr (venv_python h), t)"
  obtain v t where p: "prepare h s = (v, t)" by (metis prod.exhaust)
  from none p obtain e where e: "v = Inl e"
    using prepare_value[of h s] by (cases v) auto
  with p have stopped: "fst (prepare h s) = Inl e" by simp
  from p e have m: "fst (main h s) = e" by (simp add: main_eq)
  show "exit_status (fst (main h s)) = 1"
    unfolding m using stopped by (rule prepare_stop_status)
  show "fst (main h s) = SystemExit 1
            \<or> (\<not> encodes_check_mark h \<and> fst (main h s) = Uncaught (encode_error_str h))"
    unfolding m using stopped by (rule prepare_stop)
qed

theorem optional_steps_continue_gating_steps_stop_witness:
  "fst (ensure_python_dotenv no_dotenv_host (venv_python no_dotenv_host) ready_state) = False
   \<and> (\<exists>t. prepare no_dotenv_host ready_state = (Inr (venv_python no_dotenv_host), t))
   \<and> fst (prepare failing_host blank) = Inl (SystemExit 1)
   \<and> fst (main failing_host blank) = SystemExit 1
   \<and> fst (prepare cp1252_host blank) = Inl (Uncaught ''codec cannot encode character'')
   \<and> exit_status (fst (main cp1252_host blank)) = 1
   \<and> fst (upgrade_pip failing_host [''skill'', ''.venv'', ''bin'', ''python''] blank) = False
   \<and> (\<exists>e. out (snd (upgrade_pip failing_host [''skill'', ''.venv'', ''bin'', ''python''] blank))
         = out blank @ ''Upgrading pip...\<newline>'' @ ''WARNING: Could not upgrade pip: '' @ e
           @ ''\<newline>'')"
proof -
  note ok = optional_steps_continue_gating_steps_stop[of no_dotenv_host
              "venv_python no_dotenv_host" ready_state]
  note bad = optional_steps_continue_gating_steps_stop[of failing_host
              "[''skill'', ''.venv'', ''bin'', ''python'']" blank]
  note legacy = optional_steps_continue_gating_steps_stop[of cp1252_host
              "venv_python cp1252_host" blank]
  have ready: "\<exists>t. prepare no_dotenv_host ready_state = (Inr (venv_python no_dotenv_host), t)"
    using ok no_dotenv_facts(2,3) by blast
  have "\<forall>t. prepare failing_host blank \<noteq> (Inr (venv_python failing_host), t)"
    using failing_host_stops by auto
  then have "fst (main failing_host blank) = SystemExit 1
            \<or> (\<not> encodes_check_mark failing_host
                \<and> fst (main failing_host blank) = Uncaught (encode_error_str failing_host))"
    using bad by blast
  moreover have "encodes_check_mark failing_host" by code_simp
  ultimately have fatal: "fst (main failing_host blank) = SystemExit 1" by blast
  have "\<forall>t. prepare cp1252_host blank \<noteq> (Inr (venv_python cp1252_host), t)"
    using cp1252_host_facts(1) by auto
  then have uncaught: "exit_status (fst (main cp1252_host blank)) = 1"
    using legacy by blast
  have up: "fst (upgrade_pip failing_host [''skill'', ''.venv'', ''bin'', ''python''] blank) = False"
    by code_simp
  have warned: "\<exists>e. out (snd (upgrade_pip failing_host [''skill'', ''.venv'', ''bin'', ''python''] blank))
         = out blank @ ''Upgrading pip...\<newline>'' @ ''WARNING: Could not upgrade pip: '' @ e
           @ ''\<newline>''"
    using bad[THEN conjunct1, THEN mp, OF up] .
  show ?thesis
    using no_dotenv_facts(1) ready failing_host_stops fatal cp1252_host_facts(1) uncaught up warned
    by (intro conjI)
qed

text \<open>
  C4. Provisioning is idempotent. When the environment directory exists, \<open>ensure_venv\<close>
  returns the interpreter inside it and leaves the state as it was: nothing is printed,
  no interpreter is searched, no environment is built. When in addition the SDK import
  probe succeeds, steps 1 to 4 spawn the SDK probe, the helper probe and, only after a
  helper probe that failed, the helper install: the SDK is not installed again. On an
  environment that is complete a run spawns the two probes and at most the verification,
  and nothing else.
\<close>

theorem provisioning_is_idempotent:
  "(fs s (get_venv_path h) \<noteq> None \<longrightarrow>
      ensure_venv h s = (Inr (get_venv_python h (get_venv_path h)), s))
   \<and> (fs s (get_venv_path h) \<noteq> None \<and> completes_ok h (sdk_probe_cmd h) \<longrightarrow>
        spawned (snd (prepare h s))
          = spawned s @ [sdk_probe_cmd h, dotenv_probe_cmd h]
            @ (case run_proc h (dotenv_probe_cmd h) of
                 Completed rc sout serr \<Rightarrow> if rc = 0 then [] else [dotenv_install_cmd h]
               | Raised msg sout \<Rightarrow> []))
   \<and> (fs s (get_venv_path h) \<noteq> None \<and> completes_ok h (sdk_probe_cmd h)
        \<and> completes_ok h (dotenv_probe_cmd h) \<longrightarrow>
        spawned (snd (main h s)) = spawned s @ [sdk_probe_cmd h, dotenv_probe_cmd h]
        \<or> spawned (snd (main h s))
            = spawned s @ [sdk_probe_cmd h, dotenv_probe_cmd h, verify_cmd h])"
proof (intro conjI impI)
  assume "fs s (get_venv_path h) \<noteq> None"
  then show "ensure_venv h s = (Inr (get_venv_python h (get_venv_path h)), s)"
    by (simp add: ensure_venv_exists venv_python_def)
next
  assume "fs s (get_venv_path h) \<noteq> None \<and> completes_ok h (sdk_probe_cmd h)"
  then show "spawned (snd (prepare h s))
          = spawned s @ [sdk_probe_cmd h, dotenv_probe_cmd h]
            @ (case run_proc h (dotenv_probe_cmd h) of
                 Completed rc sout serr \<Rightarrow> if rc = 0 then [] else [dotenv_install_cmd h]
               | Raised msg sout \<Rightarrow> [])"
    using prepare_spawned_installed by blast
next
  assume a: "fs s (get_venv_path h) \<noteq> None \<and> completes_ok h (sdk_probe_cmd h)
        \<and> completes_ok h (dotenv_probe_cmd h)"
  then have "case run_proc h (dotenv_probe_cmd h) of
               Completed rc sout serr \<Rightarrow> rc = 0 | Raised msg sout \<Rightarrow> False"
    by (simp add: completes_ok_def)
  then have "(case run_proc h (dotenv_probe_cmd h) of
                 Completed rc sout serr \<Rightarrow> if rc = 0 then [] else [dotenv_install_cmd h]
               | Raised msg sout \<Rightarrow> []) = []"
    by (cases "run_proc h (dotenv_probe_cmd h)") simp_all
  with a have "spawned (snd (prepare h s)) = spawned s @ [sdk_probe_cmd h, dotenv_probe_cmd h]"
    using prepare_spawned_installed[of s h] by simp
  then show "spawned (snd (main h s)) = spawned s @ [sdk_probe_cmd h, dotenv_probe_cmd h]
        \<or> spawned (snd (main h s))
            = spawned s @ [sdk_probe_cmd h, dotenv_probe_cmd h, verify_cmd h]"
    using main_spawned[of h s] by auto
qed

theorem provisioning_is_idempotent_witness:
  "ensure_venv rejecting_host ready_state
     = (Inr (get_venv_python rejecting_host (get_venv_path rejecting_host)), ready_state)
   \<and> spawned (snd (prepare rejecting_host ready_state))
       = [sdk_probe_cmd rejecting_host, dotenv_probe_cmd rejecting_host]"
proof -
  have "(case run_proc rejecting_host (dotenv_probe_cmd rejecting_host) of
           Completed rc sout serr \<Rightarrow> if rc = 0 then [] else [dotenv_install_cmd rejecting_host]
         | Raised msg sout \<Rightarrow> []) = []"
    by code_simp
  moreover have "spawned ready_state = []"
    by (simp add: ready_state_def)
  ultimately show ?thesis
    using provisioning_is_idempotent[of ready_state rejecting_host] rejecting_host_facts
    by simp
qed

text \<open>
  C8. The provisioner never writes the credential file. From the state a run starts in to
  the state it ends in, the file system has changed by the effects of the child processes
  spawned and by nothing else. So, when no child process touches the credential file, its
  content after the run is its content before. \<open>check_env_file\<close> returns the state it
  was given, and \<open>prompt_for_api_key\<close> exits with 2 having changed standard output only.
\<close>

theorem credential_file_untouched:
  "only_children h s (snd (main h s))
   \<and> ((\<forall>cmd f. proc_effect h cmd f (env_file_of h) = f (env_file_of h)) \<longrightarrow>
        fs (snd (main h s)) (env_file_of h) = fs s (env_file_of h))
   \<and> snd (check_env_file cwd s) = s
   \<and> fst (prompt_for_api_key h cwd s) = SystemExit 2
   \<and> fs (snd (prompt_for_api_key h cwd s)) = fs s
   \<and> spawned (snd (prompt_for_api_key h cwd s)) = spawned s"
proof (intro conjI impI)
  show "only_children h s (snd (main h s))" by (rule only_children_main)
next
  assume "\<forall>cmd f. proc_effect h cmd f (env_file_of h) = f (env_file_of h)"
  then show "fs (snd (main h s)) (env_file_of h) = fs s (env_file_of h)"
    using only_children_main only_children_preserve by blast
qed simp_all

theorem credential_file_untouched_witness:
  "fs (snd (main demo_host (demo_state ''CARVER_API_KEY=abc\<newline>''))) (env_file_of demo_host)
     = Some (File ''CARVER_API_KEY=abc\<newline>'')"
proof -
  have untouched: "\<forall>cmd f. proc_effect demo_host cmd f (env_file_of demo_host) = f (env_file_of demo_host)"
    by (simp add: demo_host_def demo_effect_def env_file_of_def get_user_cwd_def)
  have "fs (demo_state ''CARVER_API_KEY=abc\<newline>'') (env_file_of demo_host)
          = Some (File ''CARVER_API_KEY=abc\<newline>'')"
    by (simp add: demo_state_def env_file_of_def get_user_cwd_def demo_host_def)
  then show ?thesis
    using credential_file_untouched[of demo_host "demo_state ''CARVER_API_KEY=abc\<newline>''"] untouched
    by simp
qed

text \<open>
  C2. A credential file that holds only the line \<open>CARVER_API_KEY=your_api_key_here\<close>
  is treated as a missing one. \<open>check_env_file\<close> returns \<open>(False, None)\<close> for it, as
  it does when the file is absent. When no child process touches the credential file, a
  run started with that file and the run started from the same state without the file end
  the same way, with the same standard output and the same commands spawned; and when
  steps 1 to 4 succeed both end with status 2.
\<close>

theorem placeholder_like_missing_file:
  assumes untouched: "\<forall>cmd f. proc_effect h cmd f (env_file_of h) = f (env_file_of h)"
    and content: "content = ''CARVER_API_KEY=your_api_key_here''
                  \<or> content = ''CARVER_API_KEY=your_api_key_here\<newline>''"
    and present: "fs s (env_file_of h) = Some (File content)"
    and missing: "s' = s\<lparr>fs := (fs s)(env_file_of h := None)\<rparr>"
  shows "fst (check_env_file (get_user_cwd h) s) = Inr (False, None)
         \<and> fst (check_env_file (get_user_cwd h) s') = Inr (False, None)
         \<and> fst (main h s) = fst (main h s')
         \<and> out (snd (main h s)) = out (snd (main h s'))
         \<and> spawned (snd (main h s)) = spawned (snd (main h s'))
         \<and> ((\<exists>t. prepare h s = (Inr (venv_python h), t)) \<longrightarrow>
               fst (main h s) = SystemExit 2 \<and> fst (main h s') = SystemExit 2)"
proof -
  let ?cwd = "get_user_cwd h"
  have no_key: "check_env_lines (file_lines content) = Inr (False, None)"
    using content placeholder_only_no_key by auto
  have with_file: "fs t (env_file_of h) = Some (File content)
                \<Longrightarrow> fst (check_env_file ?cwd t) = Inr (False, None)" for t
    using check_env_file_File[of t ?cwd content] no_key by (simp add: env_file_of_def)
  have without_file: "fs t (env_file_of h) = None
                \<Longrightarrow> fst (check_env_file ?cwd t) = Inr (False, None)" for t
    by (simp add: check_env_file_def env_file_of_def)
  have s'_env: "fs s' (env_file_of h) = None" by (simp add: missing)
  have s'_io: "out s' = out s" "spawned s' = spawned s" by (simp_all add: missing)
  have "fs s' (get_venv_path h) = fs s (get_venv_path h)"
    using venv_path_not_env_file[of h] by (simp add: missing)
  then have venv_same: "(fs s' (get_venv_path h) = None) = (fs s (get_venv_path h) = None)"
    by simp
  from prepare_emit[of s' h s, OF venv_same] obtain v printed cmds where
    p: "prepare h s = (v, emit h printed cmds s)" and p': "prepare h s' = (v, emit h printed cmds s')"
    by blast
  let ?t = "emit h printed cmds s" and ?t' = "emit h printed cmds s'"
  have t_env: "fs ?t (env_file_of h) = Some (File content)"
    using present untouched by (simp add: child_effects_preserve)
  have t'_env: "fs ?t' (env_file_of h) = None"
    using s'_env untouched by (simp add: child_effects_preserve)
  have io: "out ?t' = out ?t" "spawned ?t' = spawned ?t" by (simp_all add: s'_io)
  have c: "fst (check_env_file ?cwd ?t) = Inr (False, None)" using t_env by (rule with_file)
  have c': "fst (check_env_file ?cwd ?t') = Inr (False, None)" using t'_env by (rule without_file)
  have same: "fst (main h s) = fst (main h s')
         \<and> out (snd (main h s)) = out (snd (main h s'))
         \<and> spawned (snd (main h s)) = spawned (snd (main h s'))"
  proof (cases v)
    case (Inl stopped)
    with p p' io show ?thesis by (simp add: main_eq)
  next
    case (Inr py)
    with p p' io show ?thesis
      by (simp add: main_eq no_key_prompts[OF c] no_key_prompts[OF c'])
  qed
  have two: "(\<exists>t. prepare h s = (Inr (venv_python h), t)) \<longrightarrow>
               fst (main h s) = SystemExit 2 \<and> fst (main h s') = SystemExit 2"
  proof
    assume "\<exists>t. prepare h s = (Inr (venv_python h), t)"
    with p have v: "v = Inr (venv_python h)" by auto
    with p p' show "fst (main h s) = SystemExit 2 \<and> fst (main h s') = SystemExit 2"
      by (simp add: main_eq no_key_prompts[OF c] no_key_prompts[OF c'])
  qed
  show ?thesis
    using with_file[OF present] without_file[OF s'_env] same two by (intro conjI) simp_all
qed

theorem placeholder_like_missing_file_witness:
  "fs (demo_state ''CARVER_API_KEY=your_api_key_here\<newline>'') (env_file_of demo_host)
     = Some (File ''CARVER_API_KEY=your_api_key_here\<newline>'')
   \<and> fst (check_env_file (get_user_cwd demo_host)
            (demo_state ''CARVER_API_KEY=your_api_key_here\<newline>'')) = Inr (False, None)
   \<and> fst (main demo_host (demo_state ''CARVER_API_KEY=your_api_key_here\<newline>'')) = SystemExit 2
   \<and> fst (main demo_host
            ((demo_state ''CARVER_API_KEY=your_api_key_here\<newline>'')
               \<lparr>fs := (fs (demo_state ''CARVER_API_KEY=your_api_key_here\<newline>''))
                        (env_file_of demo_host := None)\<rparr>)) = SystemExit 2"
proof -
  let ?s = "demo_state ''CARVER_API_KEY=your_api_key_here\<newline>''"
  have untouched: "\<forall>cmd f. proc_effect demo_host cmd f (env_file_of demo_host) = f (env_file_of demo_host)"
    by (simp add: demo_host_def demo_effect_def env_file_of_def get_user_cwd_def)
  have present: "fs ?s (env_file_of demo_host) = Some (File ''CARVER_API_KEY=your_api_key_here\<newline>'')"
    by (simp add: demo_state_def env_file_of_def get_user_cwd_def demo_host_def)
  have ready: "\<exists>t. prepare demo_host ?s = (Inr (venv_python demo_host), t)"
    using demo_placeholder_ready prepare_value[of demo_host ?s]
    by (metis prod.collapse)
  note inst = placeholder_like_missing_file[OF untouched _ present refl]
  have "fst (check_env_file (get_user_cwd demo_host) ?s) = Inr (False, None)
        \<and> fst (main demo_host ?s) = SystemExit 2
        \<and> fst (main demo_host (?s\<lparr>fs := (fs ?s)(env_file_of demo_host := None)\<rparr>)) = SystemExit 2"
    using inst ready by blast
  with present show ?thesis by simp
qed

end
